theory Spec2Isabelle
  imports Complex_Main
begin

section \<open>Python values\<close>

text \<open>
  The views of \<^verbatim>\<open>chatbot/views.py\<close> read a request body with \<^verbatim>\<open>json.loads\<close>, query and
  write two tables through the ORM, and answer with a \<^verbatim>\<open>JsonResponse\<close>. The values that
  \<^verbatim>\<open>json.loads\<close> produces are \<^verbatim>\<open>None\<close>, booleans, unbounded integers, floats, strings,
  lists and dictionaries. A string is a list of characters with code points below 256;
  a dictionary is the list of its items, keys distinct, in insertion order.
\<close>

datatype pyfloat = Finite rat | PosInf | NegInf | NaN

datatype json =
    JNull
  | JBool bool
  | JInt int
  | JFloat pyfloat
  | JStr string
  | JArr "json list"
  | JObj "(string \<times> json) list"

datatype exn =
    JSONDecodeError
  | AttributeError
  | TypeError
  | ValueError
  | OverflowError
  | KeyError
  | IndexError
  | DoesNotExist
  | MultipleObjectsReturned
  | DatabaseError
  | RequestException

text \<open>Truth value of a Python object, as \<^verbatim>\<open>not x\<close> and \<^verbatim>\<open>all([...])\<close> test it.\<close>

fun truthy :: "json \<Rightarrow> bool" where
  "truthy JNull = False"
| "truthy (JBool b) = b"
| "truthy (JInt n) = (n \<noteq> 0)"
| "truthy (JFloat f) = (f \<noteq> Finite 0)"
| "truthy (JStr s) = (s \<noteq> [])"
| "truthy (JArr xs) = (xs \<noteq> [])"
| "truthy (JObj kvs) = (kvs \<noteq> [])"

text \<open>\<^verbatim>\<open>d.get(key, default)\<close> on a dictionary.\<close>

definition dict_get :: "(string \<times> json) list \<Rightarrow> string \<Rightarrow> json \<Rightarrow> json" where
  "dict_get kvs k d = (case map_of kvs k of None \<Rightarrow> d | Some v \<Rightarrow> v)"

subsection \<open>The builtin \<^verbatim>\<open>int()\<close>\<close>

text \<open>
  \<^verbatim>\<open>int(s)\<close> on a string strips surrounding whitespace, takes an optional sign and
  then decimal digits, where single underscores may stand between digits. Anything else
  raises \<^verbatim>\<open>ValueError\<close>, and so does a string of more digits than the limit of the
  interpreter, which is 4300 unless it is configured otherwise; underscores and the sign
  do not count. The whitespace that \<^verbatim>\<open>int()\<close> strips is, among the code points below 256,
  tab, line feed, vertical tab, form feed, carriage return, space, next line (133) and
  no-break space (160); the separators 28 to 31 are not among it.
\<close>

definition is_space :: "char \<Rightarrow> bool" where
  "is_space c = ((of_char c :: nat) \<in> {9, 10, 11, 12, 13, 32, 133, 160})"

definition is_digit :: "char \<Rightarrow> bool" where
  "is_digit c = (48 \<le> (of_char c :: nat) \<and> (of_char c :: nat) \<le> 57)"

definition digit_val :: "char \<Rightarrow> nat" where
  "digit_val c = of_char c - 48"

definition strip :: "string \<Rightarrow> string" where
  "strip s = rev (dropWhile is_space (rev (dropWhile is_space s)))"

fun digits_tail :: "nat \<Rightarrow> string \<Rightarrow> nat option" where
  "digits_tail acc [] = Some acc"
| "digits_tail acc (c # cs) =
     (if is_digit c then digits_tail (acc * 10 + digit_val c) cs
      else if c = CHR ''_'' then
        (case cs of
           [] \<Rightarrow> None
         | d # ds \<Rightarrow> if is_digit d then digits_tail (acc * 10 + digit_val d) ds else None)
      else None)"

definition digits_nat :: "string \<Rightarrow> nat option" where
  "digits_nat s =
     (case s of
        [] \<Rightarrow> None
      | c # cs \<Rightarrow> if is_digit c then digits_tail (digit_val c) cs else None)"

definition max_str_digits :: nat where
  "max_str_digits = 4300"

definition digits_value :: "string \<Rightarrow> exn + nat" where
  "digits_value s =
     (case digits_nat s of
        None \<Rightarrow> Inl ValueError
      | Some n \<Rightarrow>
          if max_str_digits < length (filter is_digit s) then Inl ValueError else Inr n)"

definition int_of_str :: "string \<Rightarrow> exn + int" where
  "int_of_str s =
     (case strip s of
        [] \<Rightarrow> Inl ValueError
      | c # cs \<Rightarrow>
          if c = CHR ''-'' then
            (case digits_value cs of Inl e \<Rightarrow> Inl e | Inr n \<Rightarrow> Inr (- int n))
          else if c = CHR ''+'' then
            (case digits_value cs of Inl e \<Rightarrow> Inl e | Inr n \<Rightarrow> Inr (int n))
          else
            (case digits_value (c # cs) of Inl e \<Rightarrow> Inl e | Inr n \<Rightarrow> Inr (int n)))"

text \<open>Truncation towards zero, as \<^verbatim>\<open>int(x)\<close> does on a float.\<close>

definition trunc :: "rat \<Rightarrow> int" where
  "trunc r = (if 0 \<le> r then \<lfloor>r\<rfloor> else \<lceil>r\<rceil>)"

fun py_int :: "json \<Rightarrow> exn + int" where
  "py_int JNull = Inl TypeError"
| "py_int (JBool b) = Inr (if b then 1 else 0)"
| "py_int (JInt n) = Inr n"
| "py_int (JFloat (Finite r)) = Inr (trunc r)"
| "py_int (JFloat PosInf) = Inl OverflowError"
| "py_int (JFloat NegInf) = Inl OverflowError"
| "py_int (JFloat NaN) = Inl ValueError"
| "py_int (JStr s) = int_of_str s"
| "py_int (JArr xs) = Inl TypeError"
| "py_int (JObj kvs) = Inl TypeError"

subsection \<open>The builtin \<^verbatim>\<open>str()\<close> on integers\<close>

text \<open>
  The decimal digits of an integer, with a minus sign when it is negative. The views apply
  it to the stock that they have read from an integer column, which has far fewer digits
  than the limit of the interpreter on this conversion.
\<close>

definition digit_char :: "nat \<Rightarrow> char" where
  "digit_char d = ''0123456789'' ! d"

fun str_nat :: "nat \<Rightarrow> string" where
  "str_nat n = (if n < 10 then [digit_char n] else str_nat (n div 10) @ [digit_char (n mod 10)])"

definition str_int :: "int \<Rightarrow> string" where
  "str_int i = (if i < 0 then CHR ''-'' # str_nat (nat (- i)) else str_nat (nat i))"

subsection \<open>Decimals and their conversion to floats\<close>

text \<open>
  A price is a \<^verbatim>\<open>Decimal\<close> with two fractional digits; it is represented by its number
  of hundredths. \<^verbatim>\<open>Decimal * int\<close> multiplies the coefficients and rounds the product to
  the 28 significant digits of the default context, half to even. (The bound of the
  context on the exponent is not modelled: a product reaches it only with a factor of
  about a million digits.)
\<close>

fun num_digits :: "nat \<Rightarrow> nat" where
  "num_digits n = (if n < 10 then 1 else Suc (num_digits (n div 10)))"

definition round_half_even :: "nat \<Rightarrow> nat \<Rightarrow> nat" where
  "round_half_even a d =
     (let q = a div d; r = a mod d
      in if 2 * r < d then q
         else if d < 2 * r then q + 1
         else if even q then q else q + 1)"

definition decimal_mul :: "int \<Rightarrow> int \<Rightarrow> int" where
  "decimal_mul c k =
     (let p = c * k; a = nat \<bar>p\<bar>; n = num_digits a
      in if n \<le> 28 then p
         else sgn p * int (round_half_even a (10 ^ (n - 28)) * 10 ^ (n - 28)))"

text \<open>
  \<^verbatim>\<open>float(x)\<close> on a decimal or a literal gives the binary64 number nearest to the
  fraction \<open>a / d\<close>, ties to the even significand of 53 bits; the least exponent of
  the format is \<open>-1074\<close>, and a result of \<open>2 ^ 1024\<close> or more is infinite.
\<close>

fun bit_length :: "nat \<Rightarrow> nat" where
  "bit_length n = (if n = 0 then 0 else Suc (bit_length (n div 2)))"

definition scaled :: "nat \<Rightarrow> nat \<Rightarrow> int \<Rightarrow> nat \<times> nat" where
  "scaled a d e = (if e < 0 then (a * 2 ^ nat (- e), d) else (a, d * 2 ^ nat e))"

definition binary_exponent :: "nat \<Rightarrow> nat \<Rightarrow> int" where
  "binary_exponent a d =
     (let e0 = int (bit_length a) - int (bit_length d) - 53;
          (n, m) = scaled a d e0;
          e = (if 2 ^ 53 * m \<le> n then e0 + 1 else e0)
      in max e (- 1074))"

definition float_of_fraction :: "int \<Rightarrow> nat \<Rightarrow> pyfloat" where
  "float_of_fraction p d =
     (if p = 0 then Finite 0
      else
        let a = nat \<bar>p\<bar>;
            e = binary_exponent a d;
            (n, m) = scaled a d e;
            q = round_half_even n m;
            v = (if e < 0 then of_nat q / 2 ^ nat (- e) else of_nat (q * 2 ^ nat e))
        in if 2 ^ 1024 \<le> v then (if p < 0 then NegInf else PosInf)
           else Finite (if p < 0 then - v else v))"

definition float_of_decimal :: "int \<Rightarrow> pyfloat" where
  "float_of_decimal c = float_of_fraction c 100"

section \<open>The stores\<close>

text \<open>
  Modelled from the spec: the models \<^verbatim>\<open>Phone\<close> and \<^verbatim>\<open>Order\<close> of \<^verbatim>\<open>chatbot/models.py\<close>, which
  is not among the sources. The columns are those that the views read and write, with
  the types that sections 3 and 4.1 of the specification give them: an integer key, an
  integer stock, a flag, and a price that is a decimal with two fractional digits;
  \<open>price_php\<close> counts hundredths of a peso. An order refers to its phone by the phone's
  key, and keeps the customer fields as the request gave them. The table of the phones
  has a primary key, so that the keys of its rows are distinct; the statements below say
  so where they need it. Every write is committed when it is made: the views open no
  transaction.
\<close>

record phone =
  pid :: int
  name :: string
  brand :: string
  model :: string
  price_php :: int
  description :: string
  stock :: int
  is_available :: bool

record order =
  o_id :: int
  o_customer_name :: json
  o_customer_email :: json
  o_customer_phone :: json
  o_phone :: int
  o_quantity :: int
  o_total_price_php :: int
  o_shipping_address :: json
  o_status :: string

record db =
  phones :: "phone list"
  orders :: "order list"
  last_order_id :: int

text \<open>A call of \<^verbatim>\<open>requests.post(url, headers=..., json=..., timeout=...)\<close>.\<close>

record http_request =
  url :: string
  headers :: "(string \<times> string) list"
  payload :: json
  timeout :: nat

text \<open>
  What the views do not decide themselves: whether a statement sent to the database
  raises, what the chat service answers (\<open>post\<close> stands for the request together
  with \<^verbatim>\<open>raise_for_status()\<close> and \<^verbatim>\<open>response.json()\<close>: the parsed answer, or the exception
  that one of them raises), the configured key, the text of the line of the prompt that
  describes a phone, the text of the prompt around these lines, and the text of an
  exception (\<^verbatim>\<open>str(e)\<close>).
\<close>

record env =
  filter_raises :: bool
  get_raises :: bool
  create_raises :: bool
  save_raises :: bool
  openrouter_api_key :: string
  post :: "http_request \<Rightarrow> exn + json"
  phone_line :: "phone \<Rightarrow> string"
  system_prompt :: "string \<Rightarrow> string"
  exn_text :: "exn \<Rightarrow> string"

text \<open>\<^verbatim>\<open>Phone.objects.filter(is_available=True, stock__gt=0)\<close>\<close>

definition phones_filter :: "env \<Rightarrow> db \<Rightarrow> exn + phone list" where
  "phones_filter env d =
     (if filter_raises env then Inl DatabaseError
      else Inr (filter (\<lambda>p. is_available p \<and> 0 < stock p) (phones d)))"

text \<open>
  \<^verbatim>\<open>Phone.objects.get(id=phone_id, is_available=True)\<close>: the integer key field converts
  the value with \<^verbatim>\<open>int()\<close> before the query is sent.
\<close>

definition phones_get :: "env \<Rightarrow> db \<Rightarrow> json \<Rightarrow> exn + phone" where
  "phones_get env d phone_id =
     (case py_int phone_id of
        Inl e \<Rightarrow> Inl e
      | Inr i \<Rightarrow>
          if get_raises env then Inl DatabaseError
          else
            (case filter (\<lambda>p. pid p = i \<and> is_available p) (phones d) of
               [] \<Rightarrow> Inl DoesNotExist
             | [p] \<Rightarrow> Inr p
             | _ \<Rightarrow> Inl MultipleObjectsReturned))"

text \<open>\<^verbatim>\<open>Order.objects.create(...)\<close> inserts one row and gives it the next key.\<close>

definition orders_create :: "env \<Rightarrow> db \<Rightarrow> order \<Rightarrow> exn + order \<times> db" where
  "orders_create env d row =
     (if create_raises env then Inl DatabaseError
      else
        let new = row\<lparr>o_id := last_order_id d + 1\<rparr>
        in Inr (new, d\<lparr>orders := orders d @ [new], last_order_id := last_order_id d + 1\<rparr>))"

text \<open>\<^verbatim>\<open>phone.save()\<close> writes all columns of the row with the key of \<open>p\<close>.\<close>

definition phone_save :: "env \<Rightarrow> db \<Rightarrow> phone \<Rightarrow> exn + db" where
  "phone_save env d p =
     (if save_raises env then Inl DatabaseError
      else Inr (d\<lparr>phones := map (\<lambda>r. if pid r = pid p then p else r) (phones d)\<rparr>))"

section \<open>The views\<close>

text \<open>
  A view takes the environment, the database and the parsed body of the request, and
  returns its response with the database as it leaves it. \<^verbatim>\<open>create_order\<close> and
  \<^verbatim>\<open>chat_api\<close> are modelled on POST requests: their decorator answers every other method
  before the view runs.
\<close>

type_synonym http_response = "nat \<times> json"

text \<open>\<^verbatim>\<open>JsonResponse(data, status=...)\<close>; the status is 200 when none is given.\<close>

definition JsonResponse :: "json \<Rightarrow> nat \<Rightarrow> http_response" where
  "JsonResponse data status = (status, data)"

subsection \<open>\<^verbatim>\<open>phones_api\<close>\<close>

definition phone_entry :: "phone \<Rightarrow> json" where
  "phone_entry p =
     JObj [(''id'', JInt (pid p)),
           (''name'', JStr (name p)),
           (''brand'', JStr (brand p)),
           (''model'', JStr (model p)),
           (''price_php'', JFloat (float_of_decimal (price_php p))),
           (''description'', JStr (description p)),
           (''stock'', JInt (stock p))]"

text \<open>The view has no handler: an exception of the query leaves it.\<close>

definition phones_api :: "env \<Rightarrow> db \<Rightarrow> (exn + http_response) \<times> db" where
  "phones_api env d =
     (case phones_filter env d of
        Inl e \<Rightarrow> (Inl e, d)
      | Inr ps \<Rightarrow> (Inr (JsonResponse (JObj [(''phones'', JArr (map phone_entry ps))]) 200), d))"

subsection \<open>\<^verbatim>\<open>create_order\<close>\<close>

text \<open>
  The update of the stock: \<^verbatim>\<open>phone.stock -= quantity\<close>, and
  \<^verbatim>\<open>phone.is_available = False\<close> when the stock has become 0.
\<close>

definition update_stock :: "phone \<Rightarrow> int \<Rightarrow> phone" where
  "update_stock phone quantity =
     (let phone1 = phone\<lparr>stock := stock phone - quantity\<rparr>
      in if stock phone1 = 0 then phone1\<lparr>is_available := False\<rparr> else phone1)"

text \<open>
  The body of the \<^verbatim>\<open>try\<close> block. The argument is the parsed request body, \<open>None\<close>
  when \<^verbatim>\<open>json.loads\<close> raises. The result carries the database as the block leaves it,
  also when it raises.
\<close>

definition create_order_try :: "env \<Rightarrow> db \<Rightarrow> json option \<Rightarrow> (exn + http_response) \<times> db" where
  "create_order_try env d body =
     (case body of
        None \<Rightarrow> (Inl JSONDecodeError, d)
      | Some (JObj data) \<Rightarrow>
          (let phone_id = dict_get data ''phone_id'' JNull in
           case py_int (dict_get data ''quantity'' (JInt 1)) of
             Inl e \<Rightarrow> (Inl e, d)
           | Inr quantity \<Rightarrow>
               (let customer_name = dict_get data ''customer_name'' JNull;
                    customer_email = dict_get data ''customer_email'' JNull;
                    customer_phone = dict_get data ''customer_phone'' JNull;
                    shipping_address = dict_get data ''shipping_address'' JNull
                in
                if \<not> list_all truthy
                     [phone_id, customer_name, customer_email, customer_phone, shipping_address]
                then
                  (Inr (JsonResponse
                     (JObj [(''success'', JBool False),
                            (''message'', JStr ''All fields are required'')]) 400), d)
                else
                  (case phones_get env d phone_id of
                     Inl DoesNotExist \<Rightarrow>
                       (Inr (JsonResponse
                          (JObj [(''success'', JBool False),
                                 (''message'', JStr ''Phone not found or not available'')]) 404), d)
                   | Inl e \<Rightarrow> (Inl e, d)
                   | Inr phone \<Rightarrow>
                       if stock phone < quantity then
                         (Inr (JsonResponse
                            (JObj [(''success'', JBool False),
                                   (''message'', JStr (''Only '' @ str_int (stock phone)
                                      @ '' units available in stock''))]) 400), d)
                       else
                         (let total_price = decimal_mul (price_php phone) quantity in
                          case orders_create env d
                                 \<lparr>o_id = 0,
                                  o_customer_name = customer_name,
                                  o_customer_email = customer_email,
                                  o_customer_phone = customer_phone,
                                  o_phone = pid phone,
                                  o_quantity = quantity,
                                  o_total_price_php = total_price,
                                  o_shipping_address = shipping_address,
                                  o_status = ''pending''\<rparr> of
                            Inl e \<Rightarrow> (Inl e, d)
                          | Inr (order, d1) \<Rightarrow>
                              (case phone_save env d1 (update_stock phone quantity) of
                                 Inl e \<Rightarrow> (Inl e, d1)
                               | Inr d2 \<Rightarrow>
                                   (Inr (JsonResponse
                                      (JObj [(''success'', JBool True),
                                             (''message'', JStr ''Order placed successfully!''),
                                             (''order_id'', JInt (o_id order)),
                                             (''total_price_php'',
                                                JFloat (float_of_decimal total_price))]) 200),
                                    d2))))))
      | Some _ \<Rightarrow> (Inl AttributeError, d))"

text \<open>The handler \<^verbatim>\<open>except Exception\<close> turns every exception into a response.\<close>

definition create_order :: "env \<Rightarrow> db \<Rightarrow> json option \<Rightarrow> http_response \<times> db" where
  "create_order env d body =
     (case create_order_try env d body of
        (Inr r, d') \<Rightarrow> (r, d')
      | (Inl e, d') \<Rightarrow>
          (JsonResponse
             (JObj [(''success'', JBool False),
                    (''message'', JStr (''Error creating order: '' @ exn_text env e))]) 500,
           d'))"

subsection \<open>\<^verbatim>\<open>chat_api\<close>\<close>

text \<open>Joining the lines of the prompt with newlines.\<close>

fun join_lines :: "string list \<Rightarrow> string" where
  "join_lines [] = []"
| "join_lines [l] = l"
| "join_lines (l # ls) = l @ CHR 0x0A # join_lines ls"

text \<open>
  The loop over \<^verbatim>\<open>chat_history[-10:]\<close>: every entry must be a dictionary, since
  \<^verbatim>\<open>msg.get\<close> raises on anything else.
\<close>

fun turns :: "json list \<Rightarrow> exn + json list" where
  "turns [] = Inr []"
| "turns (JObj msg # rest) =
     (case turns rest of
        Inl e \<Rightarrow> Inl e
      | Inr ms \<Rightarrow>
          Inr (JObj [(''role'', dict_get msg ''role'' (JStr ''user'')),
                     (''content'', dict_get msg ''content'' (JStr []))] # ms))"
| "turns (other # rest) = Inl AttributeError"

text \<open>
  The slice \<^verbatim>\<open>[-10:]\<close> keeps the last ten entries of a list. On a string it gives a
  string, whose characters have no \<^verbatim>\<open>get\<close>; other values cannot be sliced
  (a dictionary raises \<^verbatim>\<open>KeyError\<close> instead from Python 3.12 on, with the same status
  of the response).
\<close>

definition history_messages :: "json \<Rightarrow> exn + json list" where
  "history_messages chat_history =
     (case chat_history of
        JArr xs \<Rightarrow> turns (drop (length xs - 10) xs)
      | JStr s \<Rightarrow> if s = [] then Inr [] else Inl AttributeError
      | _ \<Rightarrow> Inl TypeError)"

text \<open>\<^verbatim>\<open>x[key]\<close> with a string key, \<^verbatim>\<open>x[0]\<close>, \<^verbatim>\<open>len(x)\<close> and \<^verbatim>\<open>'choices' in x\<close>.\<close>

definition subscript :: "json \<Rightarrow> string \<Rightarrow> exn + json" where
  "subscript x k =
     (case x of
        JObj kvs \<Rightarrow> (case map_of kvs k of None \<Rightarrow> Inl KeyError | Some v \<Rightarrow> Inr v)
      | _ \<Rightarrow> Inl TypeError)"

definition first_item :: "json \<Rightarrow> exn + json" where
  "first_item x =
     (case x of
        JArr [] \<Rightarrow> Inl IndexError
      | JArr (y # ys) \<Rightarrow> Inr y
      | JStr [] \<Rightarrow> Inl IndexError
      | JStr (c # cs) \<Rightarrow> Inr (JStr [c])
      | JObj kvs \<Rightarrow> Inl KeyError
      | _ \<Rightarrow> Inl TypeError)"

definition py_len :: "json \<Rightarrow> exn + nat" where
  "py_len x =
     (case x of
        JArr xs \<Rightarrow> Inr (length xs)
      | JStr s \<Rightarrow> Inr (length s)
      | JObj kvs \<Rightarrow> Inr (length kvs)
      | _ \<Rightarrow> Inl TypeError)"

fun contains :: "string \<Rightarrow> string \<Rightarrow> bool" where
  "contains sub [] = (sub = [])"
| "contains sub (c # cs) = (take (length sub) (c # cs) = sub \<or> contains sub cs)"

definition has_choices :: "json \<Rightarrow> exn + bool" where
  "has_choices x =
     (case x of
        JObj kvs \<Rightarrow> Inr (map_of kvs ''choices'' \<noteq> None)
      | JArr xs \<Rightarrow> Inr (JStr ''choices'' \<in> set xs)
      | JStr s \<Rightarrow> Inr (contains ''choices'' s)
      | _ \<Rightarrow> Inl TypeError)"

definition invalid_response :: http_response where
  "invalid_response =
     JsonResponse
       (JObj [(''response'',
                 JStr ''Sorry, I received an invalid response from the AI service. Please try again.''),
              (''success'', JBool False)]) 500"

text \<open>The part of the view after the answer of the chat service has arrived.\<close>

definition read_result :: "json \<Rightarrow> exn + http_response" where
  "read_result result =
     (case has_choices result of
        Inl e \<Rightarrow> Inl e
      | Inr False \<Rightarrow> Inr invalid_response
      | Inr True \<Rightarrow>
          (case subscript result ''choices'' of
             Inl e \<Rightarrow> Inl e
           | Inr choices \<Rightarrow>
               (case py_len choices of
                  Inl e \<Rightarrow> Inl e
                | Inr n \<Rightarrow>
                    if n = 0 then Inr invalid_response
                    else
                      (case first_item choices of
                         Inl e \<Rightarrow> Inl e
                       | Inr choice \<Rightarrow>
                           (case subscript choice ''message'' of
                              Inl e \<Rightarrow> Inl e
                            | Inr m \<Rightarrow>
                                (case subscript m ''content'' of
                                   Inl e \<Rightarrow> Inl e
                                 | Inr ai_message \<Rightarrow>
                                     Inr (JsonResponse
                                       (JObj [(''response'', ai_message),
                                              (''success'', JBool True)]) 200)))))))"

text \<open>The text of the prompt that describes the catalogue.\<close>

definition phones_context :: "env \<Rightarrow> db \<Rightarrow> string" where
  "phones_context env d =
     (case phones_filter env d of
        Inl e \<Rightarrow> ''Phone database is currently unavailable.''
      | Inr ps \<Rightarrow>
          (let c = join_lines (map (phone_line env) ps)
           in if c = [] then ''No phones are currently available in stock.'' else c))"

text \<open>
  The body of the \<^verbatim>\<open>try\<close> block, with the list of the requests that it has sent to
  the chat service.
\<close>

definition chat_api_try ::
  "env \<Rightarrow> db \<Rightarrow> json option \<Rightarrow> (exn + http_response) \<times> http_request list" where
  "chat_api_try env d body =
     (case body of
        None \<Rightarrow> (Inl JSONDecodeError, [])
      | Some (JObj data) \<Rightarrow>
          (let user_message = dict_get data ''message'' (JStr []) in
           if \<not> truthy user_message then
             (Inr (JsonResponse
                (JObj [(''response'', JStr ''Please provide a message.''),
                       (''success'', JBool False)]) 400), [])
           else
             (let prompt = system_prompt env (phones_context env d);
                  openrouter_url = ''https://openrouter.ai/api/v1/chat/completions'';
                  hdrs = [(''Authorization'', ''Bearer '' @ openrouter_api_key env),
                          (''Content-Type'', ''application/json'')];
                  chat_history = dict_get data ''history'' (JArr [])
              in
              case history_messages chat_history of
                Inl e \<Rightarrow> (Inl e, [])
              | Inr hist \<Rightarrow>
                  (let messages =
                         [JObj [(''role'', JStr ''system''), (''content'', JStr prompt)]]
                         @ hist
                         @ [JObj [(''role'', JStr ''user''), (''content'', user_message)]];
                       request =
                         \<lparr>url = openrouter_url,
                          headers = hdrs,
                          payload =
                            JObj [(''model'', JStr ''openai/gpt-3.5-turbo''),
                                  (''messages'', JArr messages),
                                  (''temperature'', JFloat (float_of_fraction 7 10)),
                                  (''max_tokens'', JInt 500)],
                          timeout = 30\<rparr>
                   in
                   case post env request of
                     Inl e \<Rightarrow> (Inl e, [request])
                   | Inr result \<Rightarrow> (read_result result, [request]))))
      | Some _ \<Rightarrow> (Inl AttributeError, []))"

text \<open>The three handlers, in the order of the source. The view writes no table.\<close>

definition chat_api ::
  "env \<Rightarrow> db \<Rightarrow> json option \<Rightarrow> http_response \<times> http_request list \<times> db" where
  "chat_api env d body =
     (case chat_api_try env d body of
        (Inr r, sent) \<Rightarrow> (r, sent, d)
      | (Inl RequestException, sent) \<Rightarrow>
          (JsonResponse
             (JObj [(''response'',
                       JStr ''Sorry, I encountered an error connecting to the AI service. Please try again.''),
                    (''success'', JBool False),
                    (''error'', JStr (exn_text env RequestException))]) 500,
           sent, d)
      | (Inl KeyError, sent) \<Rightarrow>
          (JsonResponse
             (JObj [(''response'',
                       JStr ''Sorry, there was an error processing the response. Please try again.''),
                    (''success'', JBool False),
                    (''error'', JStr (''Missing key: '' @ exn_text env KeyError))]) 500,
           sent, d)
      | (Inl e, sent) \<Rightarrow>
          (JsonResponse
             (JObj [(''response'', JStr ''Sorry, something went wrong. Please try again.''),
                    (''success'', JBool False),
                    (''error'', JStr (exn_text env e))]) 500,
           sent, d))"

section \<open>Requests that overlap\<close>

text \<open>
  The server handles requests concurrently. A request that is being handled by
  \<^verbatim>\<open>create_order\<close> sends three statements to the database, one after the other: the
  query \<^verbatim>\<open>Phone.objects.get\<close>, the insertion \<^verbatim>\<open>Order.objects.create\<close> and the update
  \<^verbatim>\<open>phone.save()\<close>. The view takes no lock and opens no transaction, so that between two
  of its statements the statements of other requests may be executed. A task is a request
  together with what the view holds in memory between its statements: nothing yet, the
  phone object that the query returned, or that object and the inserted order.
\<close>

datatype task =
    Pending "json option"
  | Fetched "(string \<times> json) list" int phone
  | Inserted int phone order
  | Finished http_response

definition order_error :: "env \<Rightarrow> exn \<Rightarrow> http_response" where
  "order_error env e =
     JsonResponse
       (JObj [(''success'', JBool False),
              (''message'', JStr (''Error creating order: '' @ exn_text env e))]) 500"

text \<open>The view up to and including the query for the phone.\<close>

definition step_fetch :: "env \<Rightarrow> db \<Rightarrow> json option \<Rightarrow> task" where
  "step_fetch env d body =
     (case body of
        None \<Rightarrow> Finished (order_error env JSONDecodeError)
      | Some (JObj data) \<Rightarrow>
          (let phone_id = dict_get data ''phone_id'' JNull in
           case py_int (dict_get data ''quantity'' (JInt 1)) of
             Inl e \<Rightarrow> Finished (order_error env e)
           | Inr quantity \<Rightarrow>
               (let customer_name = dict_get data ''customer_name'' JNull;
                    customer_email = dict_get data ''customer_email'' JNull;
                    customer_phone = dict_get data ''customer_phone'' JNull;
                    shipping_address = dict_get data ''shipping_address'' JNull
                in
                if \<not> list_all truthy
                     [phone_id, customer_name, customer_email, customer_phone, shipping_address]
                then
                  Finished (JsonResponse
                     (JObj [(''success'', JBool False),
                            (''message'', JStr ''All fields are required'')]) 400)
                else
                  (case phones_get env d phone_id of
                     Inl DoesNotExist \<Rightarrow>
                       Finished (JsonResponse
                          (JObj [(''success'', JBool False),
                                 (''message'', JStr ''Phone not found or not available'')]) 404)
                   | Inl e \<Rightarrow> Finished (order_error env e)
                   | Inr phone \<Rightarrow> Fetched data quantity phone)))
      | Some _ \<Rightarrow> Finished (order_error env AttributeError))"

text \<open>The test of the stock on the phone object in memory, and the insertion of the order.\<close>

definition step_insert :: "env \<Rightarrow> db \<Rightarrow> (string \<times> json) list \<Rightarrow> int \<Rightarrow> phone \<Rightarrow> task \<times> db" where
  "step_insert env d data quantity phone =
     (if stock phone < quantity then
        (Finished (JsonResponse
           (JObj [(''success'', JBool False),
                  (''message'', JStr (''Only '' @ str_int (stock phone)
                     @ '' units available in stock''))]) 400), d)
      else
        (let total_price = decimal_mul (price_php phone) quantity in
         case orders_create env d
                \<lparr>o_id = 0,
                 o_customer_name = dict_get data ''customer_name'' JNull,
                 o_customer_email = dict_get data ''customer_email'' JNull,
                 o_customer_phone = dict_get data ''customer_phone'' JNull,
                 o_phone = pid phone,
                 o_quantity = quantity,
                 o_total_price_php = total_price,
                 o_shipping_address = dict_get data ''shipping_address'' JNull,
                 o_status = ''pending''\<rparr> of
           Inl e \<Rightarrow> (Finished (order_error env e), d)
         | Inr (order, d1) \<Rightarrow> (Inserted quantity phone order, d1)))"

text \<open>The update of the phone object in memory, and its write to the table.\<close>

definition step_save :: "env \<Rightarrow> db \<Rightarrow> int \<Rightarrow> phone \<Rightarrow> order \<Rightarrow> task \<times> db" where
  "step_save env d quantity phone order =
     (case phone_save env d (update_stock phone quantity) of
        Inl e \<Rightarrow> (Finished (order_error env e), d)
      | Inr d2 \<Rightarrow>
          (Finished (JsonResponse
             (JObj [(''success'', JBool True),
                    (''message'', JStr ''Order placed successfully!''),
                    (''order_id'', JInt (o_id order)),
                    (''total_price_php'',
                       JFloat (float_of_decimal (o_total_price_php order)))]) 200),
           d2))"

fun step :: "env \<Rightarrow> db \<Rightarrow> task \<Rightarrow> task \<times> db" where
  "step env d (Pending body) = (step_fetch env d body, d)"
| "step env d (Fetched data quantity phone) = step_insert env d data quantity phone"
| "step env d (Inserted quantity phone order) = step_save env d quantity phone order"
| "step env d (Finished r) = (Finished r, d)"

text \<open>
  A schedule names, step by step, the task that executes its next statement. \<open>run\<close> is
  the execution of one request without any other in between.
\<close>

fun exec :: "env \<Rightarrow> nat list \<Rightarrow> db \<times> task list \<Rightarrow> db \<times> task list" where
  "exec env [] s = s"
| "exec env (i # sched) (d, ts) =
     (if i < length ts
      then (let (t, d') = step env d (ts ! i) in exec env sched (d', ts[i := t]))
      else exec env sched (d, ts))"

definition run :: "env \<Rightarrow> db \<Rightarrow> json option \<Rightarrow> task \<times> db" where
  "run env d body =
     (let (t1, d1) = step env d (Pending body);
          (t2, d2) = step env d1 t1
      in step env d2 t2)"

section \<open>Notions used in the statements\<close>

text \<open>The row that \<^verbatim>\<open>create_order\<close> inserts for the request \<open>data\<close>.\<close>

definition order_row :: "(string \<times> json) list \<Rightarrow> int \<Rightarrow> phone \<Rightarrow> db \<Rightarrow> order" where
  "order_row data q p d =
     \<lparr>o_id = last_order_id d + 1,
      o_customer_name = dict_get data ''customer_name'' JNull,
      o_customer_email = dict_get data ''customer_email'' JNull,
      o_customer_phone = dict_get data ''customer_phone'' JNull,
      o_phone = pid p,
      o_quantity = q,
      o_total_price_php = decimal_mul (price_php p) q,
      o_shipping_address = dict_get data ''shipping_address'' JNull,
      o_status = ''pending''\<rparr>"

definition with_order :: "db \<Rightarrow> order \<Rightarrow> db" where
  "with_order d row = d\<lparr>orders := orders d @ [row], last_order_id := last_order_id d + 1\<rparr>"

definition with_phone :: "db \<Rightarrow> phone \<Rightarrow> db" where
  "with_phone d p = d\<lparr>phones := map (\<lambda>r. if pid r = pid p then p else r) (phones d)\<rparr>"

text \<open>The five fields that \<^verbatim>\<open>create_order\<close> requires.\<close>

definition required_fields :: "(string \<times> json) list \<Rightarrow> json list" where
  "required_fields data =
     [dict_get data ''phone_id'' JNull,
      dict_get data ''customer_name'' JNull,
      dict_get data ''customer_email'' JNull,
      dict_get data ''customer_phone'' JNull,
      dict_get data ''shipping_address'' JNull]"

text \<open>
  The schedule that handles \<open>n\<close> requests one after the other, a task that has finished
  with status 200, a request that orders the quantity \<open>q\<close> of the phone with key \<open>i\<close>, and
  the calls of \<^verbatim>\<open>create_order\<close> on a list of requests, each on the database that the
  previous one has left.
\<close>

definition serial :: "nat \<Rightarrow> nat list" where
  "serial n = concat (map (\<lambda>i. [i, i, i]) [0..<n])"

definition succeeded :: "task \<Rightarrow> bool" where
  "succeeded t = (case t of Finished r \<Rightarrow> fst r = 200 | _ \<Rightarrow> False)"

definition places :: "int \<Rightarrow> int \<Rightarrow> json option \<Rightarrow> bool" where
  "places i q body =
     (case body of
        Some (JObj data) \<Rightarrow>
          list_all truthy (required_fields data)
          \<and> py_int (dict_get data ''quantity'' (JInt 1)) = Inr q
          \<and> py_int (dict_get data ''phone_id'' JNull) = Inr i
      | _ \<Rightarrow> False)"

fun serve :: "env \<Rightarrow> db \<Rightarrow> json option list \<Rightarrow> http_response list \<times> db" where
  "serve env d [] = ([], d)"
| "serve env d (b # bs) =
     (let (r, d1) = create_order env d b; (rs, d2) = serve env d1 bs in (r # rs, d2))"

text \<open>The invariant of the catalogue: a phone without stock is not available.\<close>

definition stock_invariant :: "db \<Rightarrow> bool" where
  "stock_invariant d = list_all (\<lambda>p. stock p \<noteq> 0 \<or> \<not> is_available p) (phones d)"

text \<open>The message of the chat request that a history entry becomes.\<close>

definition turn_message :: "(string \<times> json) list \<Rightarrow> json" where
  "turn_message msg =
     JObj [(''role'', dict_get msg ''role'' (JStr ''user'')),
           (''content'', dict_get msg ''content'' (JStr []))]"

subsection \<open>A catalogue, an environment and requests to evaluate on\<close>

definition phone_a :: phone where
  "phone_a =
     \<lparr>pid = 1, name = ''Galaxy A54'', brand = ''Samsung'', model = ''A54'',
      price_php = 2599900, description = ''Mid-range'', stock = 3, is_available = True\<rparr>"

definition phone_b :: phone where
  "phone_b =
     \<lparr>pid = 2, name = ''Pixel 7'', brand = ''Google'', model = ''7'',
      price_php = 3499950, description = ''Sold out'', stock = 0, is_available = False\<rparr>"

definition db0 :: db where
  "db0 = \<lparr>phones = [phone_a, phone_b], orders = [], last_order_id = 0\<rparr>"

definition env0 :: env where
  "env0 =
     \<lparr>filter_raises = False, get_raises = False, create_raises = False, save_raises = False,
      openrouter_api_key = ''sk-test'',
      post = (\<lambda>r. Inl RequestException),
      phone_line = (\<lambda>p. brand p @ '' '' @ model p),
      system_prompt = (\<lambda>c. ''Available phones: '' @ c),
      exn_text = (\<lambda>e. ''error'')\<rparr>"

definition order_request :: "json \<Rightarrow> (string \<times> json) list" where
  "order_request q =
     [(''phone_id'', JInt 1),
      (''quantity'', q),
      (''customer_name'', JStr ''Ana Cruz''),
      (''customer_email'', JStr ''ana@example.com''),
      (''customer_phone'', JStr ''09170000000''),
      (''shipping_address'', JStr ''Quezon City'')]"

definition unknown_phone_request :: "(string \<times> json) list" where
  "unknown_phone_request =
     [(''phone_id'', JInt 99),
      (''quantity'', JInt (- 1)),
      (''customer_name'', JStr ''Ana Cruz''),
      (''customer_email'', JStr ''ana@example.com''),
      (''customer_phone'', JStr ''09170000000''),
      (''shipping_address'', JStr ''Quezon City'')]"

definition env_save_fails :: env where
  "env_save_fails = env0\<lparr>save_raises := True\<rparr>"

definition phone_c :: phone where
  "phone_c =
     \<lparr>pid = 1, name = ''Vertu'', brand = ''Vertu'', model = ''Signature'',
      price_php = 9007199254740993, description = ''Luxury'', stock = 1, is_available = True\<rparr>"

definition db_c :: db where
  "db_c = \<lparr>phones = [phone_c], orders = [], last_order_id = 0\<rparr>"

definition db1 :: db where
  "db1 = snd (create_order env0 db0 (Some (JObj (order_request (JInt 2)))))"

definition history12 :: "json list" where
  "history12 =
     map (\<lambda>i. JObj [(''role'', JStr ''user''), (''content'', JInt i)])
       [1, 2, 3, 4, 5, 6, 7, 8, 9, 10, 11, 12]"

definition chat_request :: "(string \<times> json) list" where
  "chat_request =
     [(''message'', JStr ''Which phone has the best camera?''),
      (''history'', JArr history12)]"

definition db_last :: db where
  "db_last = \<lparr>phones = [phone_a\<lparr>stock := 1\<rparr>], orders = [], last_order_id = 0\<rparr>"

section \<open>Auxiliary facts\<close>

text \<open>
  Printing an integer and reading it back: \<^verbatim>\<open>int(str(i)) == i\<close>. The equation of
  \<open>str_nat\<close> is applied by hand, since it rewrites \<open>str_nat\<close> to itself.
\<close>

declare str_nat.simps [simp del]

lemma digit_char_props:
  assumes "d < 10"
  shows "is_digit (digit_char d)" and "digit_val (digit_char d) = d"
    and "\<not> is_space (digit_char d)"
    and "digit_char d \<noteq> CHR ''-''" and "digit_char d \<noteq> CHR ''+''"
proof -
  from assms have "d = 0 \<or> d = 1 \<or> d = 2 \<or> d = 3 \<or> d = 4 \<or> d = 5 \<or> d = 6 \<or> d = 7
      \<or> d = 8 \<or> d = 9"
    by presburger
  then show "is_digit (digit_char d)" and "digit_val (digit_char d) = d"
    and "\<not> is_space (digit_char d)"
    and "digit_char d \<noteq> CHR ''-''" and "digit_char d \<noteq> CHR ''+''"
    by (auto simp: digit_char_def is_digit_def digit_val_def is_space_def)
qed

lemma str_nat_digits:
  "c \<in> set (str_nat n) \<Longrightarrow> \<exists>d < 10. c = digit_char d"
proof (induction n rule: str_nat.induct)
  case (1 n)
  show ?case
  proof (cases "n < 10")
    case True
    with "1.prems" have "c = digit_char n" by (subst (asm) str_nat.simps) simp
    with True show ?thesis by blast
  next
    case False
    with "1.prems" have "c \<in> set (str_nat (n div 10)) \<or> c = digit_char (n mod 10)"
      by (subst (asm) str_nat.simps) auto
    then show ?thesis
    proof
      assume "c \<in> set (str_nat (n div 10))"
      with False "1.IH" show ?thesis by simp
    next
      assume "c = digit_char (n mod 10)"
      moreover have "n mod 10 < 10" by simp
      ultimately show ?thesis by blast
    qed
  qed
qed

lemma str_nat_nonempty: "str_nat n \<noteq> []"
  by (subst str_nat.simps) simp

lemma digits_tail_str_nat:
  "digits_tail acc (str_nat n) = Some (acc * 10 ^ length (str_nat n) + n)"
proof (induction n arbitrary: acc rule: str_nat.induct)
  case (1 n)
  have app: "digits_tail a (s @ [digit_char d]) = Some (b * 10 + d)"
    if "digits_tail a s = Some b" "d < 10" "\<forall>c \<in> set s. \<exists>d < 10. c = digit_char d" for a s b d
    using that
  proof (induction s arbitrary: a)
    case Nil
    then show ?case by (simp add: digit_char_props)
  next
    case (Cons c s)
    from Cons.prems(3) obtain k where "k < 10" "c = digit_char k" by auto
    with Cons show ?case by (simp add: digit_char_props)
  qed
  show ?case
  proof (cases "n < 10")
    case True
    then have "str_nat n = [digit_char n]" by (subst str_nat.simps) simp
    with True show ?thesis by (simp add: digit_char_props)
  next
    case False
    then have s: "str_nat n = str_nat (n div 10) @ [digit_char (n mod 10)]"
      by (subst str_nat.simps) simp
    from False "1.IH" have
      "digits_tail acc (str_nat (n div 10)) = Some (acc * 10 ^ length (str_nat (n div 10)) + n div 10)"
      by simp
    from app [OF this, of "n mod 10"] str_nat_digits [of _ "n div 10"]
    have "digits_tail acc (str_nat n)
        = Some ((acc * 10 ^ length (str_nat (n div 10)) + n div 10) * 10 + n mod 10)"
      unfolding s by auto
    also have "(acc * 10 ^ length (str_nat (n div 10)) + n div 10) * 10 + n mod 10
        = acc * 10 ^ length (str_nat n) + n"
      unfolding s by (simp add: algebra_simps)
    finally show ?thesis .
  qed
qed

lemma digits_nat_str_nat: "digits_nat (str_nat n) = Some n"
proof -
  obtain c cs where s: "str_nat n = c # cs"
    using str_nat_nonempty [of n] by (cases "str_nat n") auto
  then have "c \<in> set (str_nat n)" by simp
  from str_nat_digits [OF this] have d: "is_digit c" by (auto simp: digit_char_props)
  have "digits_tail 0 (str_nat n) = Some n" by (simp add: digits_tail_str_nat)
  with s d show ?thesis by (simp add: digits_nat_def)
qed

lemma strip_no_space:
  assumes "s \<noteq> []" and "\<not> is_space (hd s)" and "\<not> is_space (last s)"
  shows "strip s = s"
proof -
  from assms have "dropWhile is_space s = s" by (simp add: dropWhile_eq_self_iff)
  moreover from assms have "dropWhile is_space (rev s) = rev s"
    by (simp add: dropWhile_eq_self_iff hd_rev)
  ultimately show ?thesis by (simp add: strip_def)
qed

lemma num_digits_le:
  "n < 10 ^ k \<Longrightarrow> 0 < k \<Longrightarrow> num_digits n \<le> k"
proof (induction k arbitrary: n)
  case 0
  then show ?case by simp
next
  case (Suc k)
  show ?case
  proof (cases "n < 10")
    case True
    then show ?thesis by simp
  next
    case False
    with Suc.prems have "0 < k" by (cases k) auto
    moreover from Suc.prems have "n div 10 < 10 ^ k" by (simp add: less_mult_imp_div_less mult.commute)
    ultimately have "num_digits (n div 10) \<le> k" by (rule Suc.IH [rotated])
    with False show ?thesis by simp
  qed
qed

lemma length_str_nat: "length (str_nat n) = num_digits n"
proof (induction n rule: str_nat.induct)
  case (1 n)
  show ?case
  proof (cases "n < 10")
    case True
    then have "str_nat n = [digit_char n]" by (subst str_nat.simps) simp
    with True show ?thesis by simp
  next
    case False
    then have "str_nat n = str_nat (n div 10) @ [digit_char (n mod 10)]"
      by (subst str_nat.simps) simp
    with False "1.IH" show ?thesis by simp
  qed
qed

lemma digits_value_str_nat:
  assumes "n < 10 ^ max_str_digits"
  shows "digits_value (str_nat n) = Inr n"
proof -
  have "is_digit c" if "c \<in> set (str_nat n)" for c
  proof -
    from str_nat_digits [OF that] obtain d where "d < 10" "c = digit_char d" by blast
    then show ?thesis by (simp add: digit_char_props)
  qed
  then have "filter is_digit (str_nat n) = str_nat n" by (simp add: filter_id_conv)
  moreover from assms have "num_digits n \<le> max_str_digits"
    by (rule num_digits_le) (simp add: max_str_digits_def)
  ultimately show ?thesis
    by (simp add: digits_value_def digits_nat_str_nat length_str_nat)
qed

text \<open>
  The boundary of what \<^verbatim>\<open>int()\<close> accepts: a separator is not whitespace, a no-break space
  and a line feed are, and a string of 4301 digits is over the limit.
\<close>

lemma int_rejects_separator: "py_int (JStr [CHR 0x1F, CHR ''2'']) = Inl ValueError"
  by (simp add: int_of_str_def digits_value_def strip_def is_space_def digits_nat_def is_digit_def)

lemma int_strips_whitespace: "py_int (JStr [CHR 0xA0, CHR ''2'', CHR 0x0A]) = Inr 2"
  by (simp add: int_of_str_def digits_value_def max_str_digits_def strip_def is_space_def
      digits_nat_def is_digit_def digit_val_def)

lemma digits_value_limit:
  "max_str_digits < length (filter is_digit s) \<Longrightarrow> digits_value s = Inl ValueError"
  by (simp add: digits_value_def split: option.splits)

lemma int_of_str_limit: "int_of_str (replicate 4301 CHR ''9'') = Inl ValueError"
proof -
  have d: "is_digit CHR ''9''" "\<not> is_space CHR ''9''" "CHR ''9'' \<noteq> CHR ''-''" "CHR ''9'' \<noteq> CHR ''+''"
    by (simp_all add: is_digit_def is_space_def)
  have r: "replicate 4301 CHR ''9'' = CHR ''9'' # replicate 4300 CHR ''9''"
    by (simp add: replicate_Suc [symmetric] del: replicate_Suc replicate.simps)
  have "replicate 4301 CHR ''9'' \<noteq> []" by simp
  moreover have "hd (replicate 4301 CHR ''9'') = CHR ''9''" by (simp add: hd_replicate)
  moreover have "last (replicate 4301 CHR ''9'') = CHR ''9''" by (simp add: last_replicate)
  ultimately have s: "strip (replicate 4301 CHR ''9'') = replicate 4301 CHR ''9''"
    using d(2) by (intro strip_no_space) simp_all
  have "max_str_digits < length (filter is_digit (replicate 4301 CHR ''9''))"
    using d(1) by (simp add: max_str_digits_def)
  then have "digits_value (replicate 4301 CHR ''9'') = Inl ValueError"
    by (rule digits_value_limit)
  then have "digits_value (CHR ''9'' # replicate 4300 CHR ''9'') = Inl ValueError"
    by (simp only: r)
  then show ?thesis
    unfolding int_of_str_def s
    by (simp only: r list.case) (simp add: d)
qed

lemma below_max_str_digits:
  assumes "\<bar>i\<bar> < 10"
  shows "\<bar>i :: int\<bar> < 10 ^ max_str_digits"
proof -
  have "(10 :: int) ^ 1 \<le> 10 ^ max_str_digits"
    by (rule power_increasing) (simp_all add: max_str_digits_def)
  with assms show ?thesis by simp
qed

lemma int_of_str_str_int:
  assumes "\<bar>i\<bar> < 10 ^ max_str_digits"
  shows "int_of_str (str_int i) = Inr i"
proof -
  obtain c cs where s: "str_nat (nat \<bar>i\<bar>) = c # cs"
    using str_nat_nonempty [of "nat \<bar>i\<bar>"] by (cases "str_nat (nat \<bar>i\<bar>)") auto
  have dig: "\<not> is_space x \<and> x \<noteq> CHR ''-'' \<and> x \<noteq> CHR ''+''" if "x \<in> set (c # cs)" for x
  proof -
    from that have "x \<in> set (str_nat (nat \<bar>i\<bar>))" by (simp only: s)
    from str_nat_digits [OF this] obtain d where "d < 10" "x = digit_char d" by blast
    then show ?thesis by (simp add: digit_char_props)
  qed
  have "last (c # cs) \<in> set (c # cs)" by (rule last_in_set) simp
  from dig [OF this] have l: "\<not> is_space (last (c # cs))" by blast
  have "c \<in> set (c # cs)" by simp
  from dig [OF this] have c: "\<not> is_space c" "c \<noteq> CHR ''-''" "c \<noteq> CHR ''+''" by blast+
  from assms have "nat \<bar>i\<bar> < 10 ^ max_str_digits" by (simp add: nat_less_iff)
  from digits_value_str_nat [OF this] s
  have n: "digits_value (c # cs) = Inr (nat \<bar>i\<bar>)" by simp
  show ?thesis
  proof (cases "i < 0")
    case True
    then have e: "str_int i = CHR ''-'' # c # cs" by (simp add: str_int_def s [symmetric])
    have "\<not> is_space CHR ''-''" by (simp add: is_space_def)
    with l have "strip (CHR ''-'' # c # cs) = CHR ''-'' # c # cs"
      by (intro strip_no_space) simp_all
    with n True show ?thesis by (simp add: e int_of_str_def)
  next
    case False
    then have e: "str_int i = c # cs" by (simp add: str_int_def s [symmetric])
    from c l have "strip (c # cs) = c # cs"
      by (intro strip_no_space) simp_all
    with n False c show ?thesis by (simp add: e int_of_str_def)
  qed
qed

lemmas eval_defs = create_order_def create_order_try_def phones_get_def orders_create_def
  phone_save_def update_stock_def dict_get_def order_request_def env0_def db0_def phone_a_def
  phone_b_def JsonResponse_def decimal_mul_def float_of_decimal_def float_of_fraction_def
  binary_exponent_def scaled_def round_half_even_def Let_def

lemma decimal_mul_exact:
  assumes "\<bar>c * k\<bar> < 10 ^ 28"
  shows "decimal_mul c k = c * k"
proof -
  from assms have "nat \<bar>c * k\<bar> < 10 ^ 28" by (simp add: nat_less_iff)
  then have "num_digits (nat \<bar>c * k\<bar>) \<le> 28" by (rule num_digits_le) simp
  then show ?thesis by (simp add: decimal_mul_def Let_def)
qed

lemma bit_length_le:
  "n < 2 ^ k \<Longrightarrow> bit_length n \<le> k"
proof (induction k arbitrary: n)
  case 0
  then show ?case by simp
next
  case (Suc k)
  show ?case
  proof (cases "n = 0")
    case True
    then show ?thesis by simp
  next
    case False
    from Suc.prems have "n div 2 < 2 ^ k" by (simp add: less_mult_imp_div_less mult.commute)
    then have "bit_length (n div 2) \<le> k" by (rule Suc.IH)
    with False show ?thesis by simp
  qed
qed

lemma float_of_decimal_whole:
  assumes "\<bar>m\<bar> < 2 ^ 53"
  shows "float_of_decimal (100 * m) = Finite (of_int m)"
proof (cases "m = 0")
  case True
  then show ?thesis by (simp add: float_of_decimal_def float_of_fraction_def)
next
  case False
  define M where "M = nat \<bar>m\<bar>"
  from assms False have M: "0 < M" "M < 2 ^ 53" by (simp_all add: M_def nat_less_iff)
  have a: "nat \<bar>100 * m\<bar> = 100 * M" by (simp add: M_def abs_mult nat_mult_distrib)
  have bl100: "bit_length 100 = 7" by simp
  from M have "100 * M < 2 ^ 60" by simp
  then have L: "bit_length (100 * M) \<le> 60" by (rule bit_length_le)
  define e0 where "e0 = int (bit_length (100 * M)) - int (bit_length 100) - 53"
  from L have e0: "e0 \<le> 0" by (simp add: e0_def)
  define e where "e = binary_exponent (100 * M) 100"
  have e_le: "e \<le> 0"
  proof (cases "e0 = 0")
    case True
    with M show ?thesis
      unfolding e_def binary_exponent_def Let_def e0_def [symmetric]
      by (simp add: scaled_def)
  next
    case False
    with e0 have "e0 + 1 \<le> 0" by simp
    with e0 show ?thesis
      unfolding e_def binary_exponent_def Let_def e0_def [symmetric]
      by (simp split: prod.splits)
  qed
  have sc: "scaled (100 * M) 100 e = (if e < 0 then (100 * M * 2 ^ nat (- e), 100) else (100 * M, 100))"
    using e_le by (auto simp: scaled_def)
  have q: "round_half_even (100 * M * 2 ^ nat (- e)) 100 = M * 2 ^ nat (- e)"
    by (simp add: round_half_even_def Let_def)
  have q0: "round_half_even (100 * M) 100 = M"
    by (simp add: round_half_even_def Let_def)
  have big: "\<not> (2 ^ 1024 \<le> (of_nat M :: rat))"
  proof -
    from M have "(of_nat M :: rat) < of_nat (2 ^ 53)" by (simp only: of_nat_less_iff)
    also have "\<dots> < 2 ^ 1024" by simp
    finally show ?thesis by simp
  qed
  have v: "(if e < 0 then of_nat (M * 2 ^ nat (- e)) / 2 ^ nat (- e) else of_nat (M * 2 ^ nat e)) = (of_nat M :: rat)"
    using e_le by auto
  have "float_of_fraction (100 * m) 100 = Finite (if m < 0 then - of_nat M else of_nat M)"
  proof (cases "e < 0")
    case True
    with False big v show ?thesis
      unfolding float_of_fraction_def Let_def a e_def [symmetric] sc
      by (simp add: q)
  next
    case f: False
    with e_le have "e = 0" by simp
    with False big show ?thesis
      unfolding float_of_fraction_def Let_def a e_def [symmetric] sc
      by (simp add: q0)
  qed
  moreover have "(if m < 0 then - of_nat M else of_nat M) = (of_int m :: rat)"
    by (simp add: M_def)
  ultimately show ?thesis by (simp add: float_of_decimal_def)
qed

lemma db1_eq:
  "db1 = \<lparr>phones = [phone_a\<lparr>stock := 1\<rparr>, phone_b],
     orders = [\<lparr>o_id = 1, o_customer_name = JStr ''Ana Cruz'',
      o_customer_email = JStr ''ana@example.com'',
      o_customer_phone = JStr ''09170000000'',
      o_phone = 1, o_quantity = 2, o_total_price_php = 5199800,
      o_shipping_address = JStr ''Quezon City'', o_status = ''pending''\<rparr>],
     last_order_id = 1\<rparr>"
  by (simp add: db1_def eval_defs)

lemma turns_map: "turns (map JObj ms) = Inr (map turn_message ms)"
  by (induction ms) (simp_all add: turn_message_def)

lemma turns_Inr:
  "turns xs = Inr r \<Longrightarrow> \<exists>ms. xs = map JObj ms \<and> r = map turn_message ms"
proof (induction xs arbitrary: r)
  case Nil
  then show ?case by simp
next
  case (Cons x xs)
  from Cons.prems obtain msg where x: "x = JObj msg" by (cases x) simp_all
  with Cons.prems obtain r' where r': "turns xs = Inr r'" and r: "r = turn_message msg # r'"
    by (auto simp: turn_message_def split: sum.splits)
  from Cons.IH [OF r'] obtain ms where "xs = map JObj ms" "r' = map turn_message ms" by blast
  with x r have "x # xs = map JObj (msg # ms) \<and> r = map turn_message (msg # ms)" by simp
  then show ?case by (rule exI [of _ "msg # ms"])
qed

lemma create_order_cases:
  assumes "create_order env d body = (r, d')"
  shows "(fst r \<noteq> 200 \<and> d' = d) \<or>
    (\<exists>data q p. body = Some (JObj data)
       \<and> py_int (dict_get data ''quantity'' (JInt 1)) = Inr q
       \<and> list_all truthy (required_fields data)
       \<and> phones_get env d (dict_get data ''phone_id'' JNull) = Inr p
       \<and> q \<le> stock p \<and> \<not> create_raises env
       \<and> (if save_raises env
            then fst r = 500 \<and> d' = with_order d (order_row data q p d)
            else r = JsonResponse
                      (JObj [(''success'', JBool True),
                             (''message'', JStr ''Order placed successfully!''),
                             (''order_id'', JInt (last_order_id d + 1)),
                             (''total_price_php'',
                                JFloat (float_of_decimal (decimal_mul (price_php p) q)))]) 200
              \<and> d' = with_phone (with_order d (order_row data q p d)) (update_stock p q)))"
  using assms
  unfolding create_order_def create_order_try_def orders_create_def phone_save_def
    JsonResponse_def with_order_def with_phone_def order_row_def required_fields_def Let_def
  by (auto split: option.splits json.splits sum.splits exn.splits if_splits prod.splits)

lemma create_order_valid:
  assumes "py_int (dict_get data ''quantity'' (JInt 1)) = Inr q"
    and "list_all truthy (required_fields data)"
    and "phones_get env d (dict_get data ''phone_id'' JNull) = Inr p"
    and "q \<le> stock p" and "\<not> create_raises env"
  shows "create_order env d (Some (JObj data)) =
    (if save_raises env
     then (JsonResponse
             (JObj [(''success'', JBool False),
                    (''message'', JStr (''Error creating order: '' @ exn_text env DatabaseError))]) 500,
           with_order d (order_row data q p d))
     else (JsonResponse
             (JObj [(''success'', JBool True),
                    (''message'', JStr ''Order placed successfully!''),
                    (''order_id'', JInt (last_order_id d + 1)),
                    (''total_price_php'',
                       JFloat (float_of_decimal (decimal_mul (price_php p) q)))]) 200,
           with_phone (with_order d (order_row data q p d)) (update_stock p q)))"
  using assms
  unfolding create_order_def create_order_try_def orders_create_def phone_save_def
    with_order_def with_phone_def order_row_def required_fields_def Let_def
  by simp

lemma phones_get_found:
  assumes "distinct (map pid (phones d))" and "p \<in> set (phones d)" and "is_available p"
    and "py_int v = Inr (pid p)" and "\<not> get_raises env"
  shows "phones_get env d v = Inr p"
proof -
  have "filter (\<lambda>r. pid r = pid p \<and> is_available r) ps = [p]"
    if "distinct (map pid ps)" "p \<in> set ps" for ps
    using that
  proof (induction ps)
    case Nil
    then show ?case by simp
  next
    case (Cons r ps)
    show ?case
    proof (cases "r = p")
      case True
      with Cons.prems have "\<forall>x \<in> set ps. pid x \<noteq> pid p" by (metis distinct.simps(2) imageI list.simps(9) set_map)
      then have "filter (\<lambda>r. pid r = pid p \<and> is_available r) ps = []"
        by (simp add: filter_empty_conv)
      with True assms(3) show ?thesis by simp
    next
      case False
      with Cons.prems have "p \<in> set ps" "pid r \<noteq> pid p" by auto
      with Cons show ?thesis by simp
    qed
  qed
  with assms show ?thesis by (simp add: phones_get_def)
qed

lemma filter_singleton_member:
  assumes "filter P xs = [x]"
  shows "x \<in> set xs \<and> P x"
proof -
  from assms have "x \<in> set (filter P xs)" by simp
  then show ?thesis by simp
qed

lemma phones_get_sound:
  assumes "phones_get env d v = Inr p"
  shows "p \<in> set (phones d) \<and> is_available p \<and> py_int v = Inr (pid p) \<and> \<not> get_raises env"
proof -
  from assms obtain i where i: "py_int v = Inr i" and g: "\<not> get_raises env"
    and f: "filter (\<lambda>r. pid r = i \<and> is_available r) (phones d) = [p]"
    unfolding phones_get_def
    by (auto split: sum.splits if_splits list.splits)
  from filter_singleton_member [OF f] i g show ?thesis by simp
qed

lemma with_phone_single_row:
  assumes "distinct (map pid ps)" and "p \<in> set ps" and "pid p' = pid p"
  shows "\<exists>i < length ps. ps ! i = p \<and> map (\<lambda>r. if pid r = pid p' then p' else r) ps = ps[i := p']"
  using assms
proof (induction ps)
  case Nil
  then show ?case by simp
next
  case (Cons r ps)
  show ?case
  proof (cases "r = p")
    case True
    with Cons.prems have "\<forall>x \<in> set ps. pid x \<noteq> pid p'"
      by (metis distinct.simps(2) imageI list.simps(9) set_map)
    then have "map (\<lambda>r. if pid r = pid p' then p' else r) ps = ps"
      by (simp add: map_idI)
    with True Cons.prems(3) have
      "(r # ps) ! 0 = p \<and> map (\<lambda>r. if pid r = pid p' then p' else r) (r # ps) = (r # ps)[0 := p']"
      by simp
    then show ?thesis by (metis length_greater_0_conv list.distinct(1))
  next
    case False
    with Cons.prems have "p \<in> set ps" "pid r \<noteq> pid p'" "distinct (map pid ps)" by auto
    with Cons.IH Cons.prems(3) obtain i where
      "i < length ps" "ps ! i = p" "map (\<lambda>r. if pid r = pid p' then p' else r) ps = ps[i := p']"
      by blast
    with \<open>pid r \<noteq> pid p'\<close> have
      "Suc i < length (r # ps) \<and> (r # ps) ! Suc i = p
        \<and> map (\<lambda>r. if pid r = pid p' then p' else r) (r # ps) = (r # ps)[Suc i := p']"
      by simp
    then show ?thesis by blast
  qed
qed

lemma with_phone_row:
  assumes "distinct (map pid ps)" and "p \<in> set ps" and "pid p' = pid p"
  shows "filter (\<lambda>r. pid r = pid p) (map (\<lambda>r. if pid r = pid p' then p' else r) ps) = [p']"
  using assms
proof (induction ps)
  case Nil
  then show ?case by simp
next
  case (Cons r ps)
  show ?case
  proof (cases "r = p")
    case True
    with Cons.prems have "\<forall>x \<in> set ps. pid x \<noteq> pid p"
      by (metis distinct.simps(2) imageI list.simps(9) set_map)
    with Cons.prems(3) have "filter (\<lambda>r. pid r = pid p) (map (\<lambda>r. if pid r = pid p' then p' else r) ps) = []"
      by (auto simp: filter_empty_conv)
    with True Cons.prems(3) show ?thesis by simp
  next
    case False
    with Cons.prems have "p \<in> set ps" "pid r \<noteq> pid p" "distinct (map pid ps)" by auto
    with Cons.IH Cons.prems(3) show ?thesis by simp
  qed
qed

lemma update_stock_simps:
  "pid (update_stock p q) = pid p"
  "stock (update_stock p q) = stock p - q"
  "is_available (update_stock p q) = (is_available p \<and> stock p - q \<noteq> 0)"
  "price_php (update_stock p q) = price_php p"
  by (simp_all add: update_stock_def Let_def)

lemma update_stock_eq:
  "is_available p \<Longrightarrow>
   update_stock p q = p\<lparr>stock := stock p - q, is_available := stock p - q \<noteq> 0\<rparr>"
  by (simp add: update_stock_def Let_def)

lemma stock_invariant_with_order:
  "stock_invariant (with_order d row) = stock_invariant d"
  by (simp add: stock_invariant_def with_order_def)

lemma stock_invariant_with_phone:
  assumes "stock_invariant d" and "stock p \<noteq> 0 \<or> \<not> is_available p"
  shows "stock_invariant (with_phone d p)"
  using assms
  by (auto simp: stock_invariant_def with_phone_def list_all_iff)

lemma chat_api_db: "snd (snd (chat_api env d body)) = d"
  by (simp add: chat_api_def split: prod.splits sum.splits exn.splits)

lemma phones_api_db: "snd (phones_api env d) = d"
  by (simp add: phones_api_def split: sum.splits)

lemma distinct_pid_eq:
  assumes "distinct (map pid ps)" and "p \<in> set ps" and "p' \<in> set ps" and "pid p' = pid p"
  shows "p' = p"
  using assms by (meson distinct_map inj_on_eq_iff)

lemmas run_defs = run_def step_fetch_def step_insert_def step_save_def create_order_def
  create_order_try_def order_error_def orders_create_def phone_save_def Let_def

lemma run_create_order:
  "run env d body = (Finished (fst (create_order env d body)), snd (create_order env d body))"
proof (cases body)
  case None
  then show ?thesis by (simp add: run_defs)
next
  case (Some j)
  show ?thesis
  proof (cases "\<exists>data. j = JObj data")
    case False
    with Some show ?thesis by (cases j) (simp_all add: run_defs)
  next
    case True
    then obtain data where j: "j = JObj data" by blast
    show ?thesis
    proof (cases "py_int (dict_get data ''quantity'' (JInt 1))")
      case (Inl e)
      with Some j show ?thesis by (simp add: run_defs)
    next
      case q: (Inr q)
      show ?thesis
      proof (cases "list_all truthy
          [dict_get data ''phone_id'' JNull, dict_get data ''customer_name'' JNull,
           dict_get data ''customer_email'' JNull, dict_get data ''customer_phone'' JNull,
           dict_get data ''shipping_address'' JNull]")
        case False
        with Some j q show ?thesis by (simp add: run_defs)
      next
        case fields: True
        show ?thesis
        proof (cases "phones_get env d (dict_get data ''phone_id'' JNull)")
          case (Inl e)
          with Some j q fields show ?thesis by (cases e) (simp_all add: run_defs)
        next
          case p: (Inr p)
          show ?thesis
          proof (cases "stock p < q")
            case True
            with Some j q fields p show ?thesis by (simp add: run_defs)
          next
            case False
            with Some j q fields p show ?thesis
              by (cases "create_raises env"; cases "save_raises env") (simp_all add: run_defs)
          qed
        qed
      qed
    qed
  qed
qed

lemma exec_one:
  assumes "i < length ts" and "ts ! i = Pending body"
  shows "exec env (i # i # i # sched) (d, ts)
    = exec env sched (snd (create_order env d body), ts[i := Finished (fst (create_order env d body))])"
proof -
  obtain t1 where t1: "step env d (Pending body) = (t1, d)" by simp
  obtain t2 d2 where t2: "step env d t1 = (t2, d2)" by (cases "step env d t1")
  obtain t3 d3 where t3: "step env d2 t2 = (t3, d3)" by (cases "step env d2 t2")
  from t1 t2 t3 have "run env d body = (t3, d3)" by (simp add: run_def)
  then have r: "t3 = Finished (fst (create_order env d body))" "d3 = snd (create_order env d body)"
    by (simp_all add: run_create_order)
  from assms t1 t2 t3 have "exec env (i # i # i # sched) (d, ts) = exec env sched (d3, ts[i := t3])"
    by simp
  with r show ?thesis by simp
qed

lemma exec_serial:
  "exec env (concat (map (\<lambda>i. [i, i, i]) [length done..<length done + length bs]))
     (d, map Finished done @ map Pending bs)
   = (snd (serve env d bs), map Finished (done @ fst (serve env d bs)))"
proof (induction bs arbitrary: d "done")
  case Nil
  then show ?case by simp
next
  case (Cons b bs)
  let ?k = "length done"
  let ?ts = "map Finished done @ map Pending (b # bs)"
  obtain r d1 where c: "create_order env d b = (r, d1)" by (cases "create_order env d b")
  have "?k < ?k + length (b # bs)" by simp
  from upt_conv_Cons [OF this]
  have u: "[?k..<?k + length (b # bs)] = ?k # [Suc ?k..<Suc ?k + length bs]"
    by simp
  have i: "?k < length ?ts" "?ts ! ?k = Pending b" by (simp_all add: nth_append)
  have l: "?ts[?k := Finished r] = map Finished (done @ [r]) @ map Pending bs"
    by (simp add: list_update_append)
  have "exec env (concat (map (\<lambda>i. [i, i, i]) [?k..<?k + length (b # bs)])) (d, ?ts)
      = exec env (concat (map (\<lambda>i. [i, i, i]) [Suc ?k..<Suc ?k + length bs])) (d1, ?ts[?k := Finished r])"
    unfolding u using exec_one [OF i, of env _ d] c by simp
  also have "\<dots> = (snd (serve env d1 bs), map Finished ((done @ [r]) @ fst (serve env d1 bs)))"
    unfolding l using Cons.IH [of "done @ [r]" d1] by simp
  finally show ?case using c by (simp add: split_beta)
qed

lemma exec_serial_serve:
  "exec env (serial (length bs)) (d, map Pending bs)
   = (snd (serve env d bs), map Finished (fst (serve env d bs)))"
  using exec_serial [of env "[]" bs d] by (simp add: serial_def)

lemma places_elim:
  assumes "places i q body"
  obtains data where "body = Some (JObj data)" "list_all truthy (required_fields data)"
    "py_int (dict_get data ''quantity'' (JInt 1)) = Inr q"
    "py_int (dict_get data ''phone_id'' JNull) = Inr i"
  using assms unfolding places_def
  by (auto split: option.splits json.splits)

lemma placed_success:
  assumes c: "create_order env d body = (r, d')" and ok: "fst r = 200"
    and pl: "places (pid p) q body"
    and dist: "distinct (map pid (phones d))" and mem: "p \<in> set (phones d)"
  shows "is_available p \<and> q \<le> stock p \<and> phones d' = map (\<lambda>x. if pid x = pid p then update_stock p q else x) (phones d)"
proof -
  from pl obtain data where b: "body = Some (JObj data)"
    and q: "py_int (dict_get data ''quantity'' (JInt 1)) = Inr q"
    and i: "py_int (dict_get data ''phone_id'' JNull) = Inr (pid p)"
    by (rule places_elim)
  from create_order_cases [OF c] ok obtain data' q' p' where
    b': "body = Some (JObj data')"
    and q': "py_int (dict_get data' ''quantity'' (JInt 1)) = Inr q'"
    and g: "phones_get env d (dict_get data' ''phone_id'' JNull) = Inr p'"
    and le: "q' \<le> stock p'"
    and s: "if save_raises env
            then fst r = 500 \<and> d' = with_order d (order_row data' q' p' d)
            else r = JsonResponse
                      (JObj [(''success'', JBool True),
                             (''message'', JStr ''Order placed successfully!''),
                             (''order_id'', JInt (last_order_id d + 1)),
                             (''total_price_php'',
                                JFloat (float_of_decimal (decimal_mul (price_php p') q')))]) 200
              \<and> d' = with_phone (with_order d (order_row data' q' p' d)) (update_stock p' q')"
    by auto
  from b b' have [simp]: "data' = data" by simp
  from q q' have [simp]: "q' = q" by simp
  from phones_get_sound [OF g] i have p': "p' \<in> set (phones d)" "pid p' = pid p" "is_available p'"
    by simp_all
  with dist mem have [simp]: "p' = p" by (intro distinct_pid_eq [of "phones d"]) simp_all
  from s ok have "d' = with_phone (with_order d (order_row data q p d)) (update_stock p q)"
    by (auto split: if_splits)
  then have "phones d' = map (\<lambda>x. if pid x = pid p then update_stock p q else x) (phones d)"
    by (simp add: with_phone_def with_order_def update_stock_simps)
  with le p'(3) show ?thesis by simp
qed

lemma placed_valid:
  assumes pl: "places (pid p) q body"
    and dist: "distinct (map pid (phones d))" and mem: "p \<in> set (phones d)"
    and av: "is_available p" and le: "q \<le> stock p"
    and nf: "\<not> get_raises env" "\<not> create_raises env" "\<not> save_raises env"
  shows "fst (fst (create_order env d body)) = 200"
proof -
  from pl obtain data where b: "body = Some (JObj data)"
    and f: "list_all truthy (required_fields data)"
    and q: "py_int (dict_get data ''quantity'' (JInt 1)) = Inr q"
    and i: "py_int (dict_get data ''phone_id'' JNull) = Inr (pid p)"
    by (rule places_elim)
  from dist mem av i nf(1) have "phones_get env d (dict_get data ''phone_id'' JNull) = Inr p"
    by (rule phones_get_found)
  from create_order_valid [OF q f this le nf(2)] nf(3) b show ?thesis
    by (simp add: JsonResponse_def)
qed

lemma map_update_row:
  assumes "p \<in> set ps" and "pid p' = pid p"
  shows "map pid (map (\<lambda>x. if pid x = pid p then p' else x) ps) = map pid ps"
    and "p' \<in> set (map (\<lambda>x. if pid x = pid p then p' else x) ps)"
  using assms by (auto simp: image_iff intro!: bexI [of _ p])

lemma serve_pair:
  assumes dist: "distinct (map pid (phones d))" and mem: "p \<in> set (phones d)"
    and p1: "places (pid p) q1 b1" and p2: "places (pid p) q2 b2"
    and lt: "stock p < q1 + q2"
  shows "\<not> list_all (\<lambda>r. fst r = 200) (fst (serve env d [b1, b2]))"
proof
  assume a: "list_all (\<lambda>r. fst r = 200) (fst (serve env d [b1, b2]))"
  obtain r1 d1 where c1: "create_order env d b1 = (r1, d1)" by (cases "create_order env d b1")
  obtain r2 d2 where c2: "create_order env d1 b2 = (r2, d2)" by (cases "create_order env d1 b2")
  from a c1 c2 have ok: "fst r1 = 200" "fst r2 = 200" by simp_all
  let ?p = "update_stock p q1"
  from placed_success [OF c1 ok(1) p1 dist mem] have le1: "q1 \<le> stock p"
    and ph: "phones d1 = map (\<lambda>x. if pid x = pid p then ?p else x) (phones d)"
    by simp_all
  have pp: "pid ?p = pid p" by (simp add: update_stock_simps)
  have "map pid (phones d1) = map pid (phones d)"
    unfolding ph by (rule map_update_row(1) [OF mem pp])
  with dist have dist1: "distinct (map pid (phones d1))" by simp
  have mem1: "?p \<in> set (phones d1)"
    unfolding ph by (rule map_update_row(2) [OF mem pp])
  from p2 pp have p2': "places (pid ?p) q2 b2" by simp
  from placed_success [OF c2 ok(2) p2' dist1 mem1] have "q2 \<le> stock ?p" by simp
  then have "q2 \<le> stock p - q1" by (simp add: update_stock_simps)
  with lt show False by simp
qed

lemma serve_units:
  assumes "distinct (map pid (phones d))" and "p \<in> set (phones d)"
    and "stock p = int n" and "0 < n \<longrightarrow> is_available p"
    and "\<not> get_raises env" "\<not> create_raises env" "\<not> save_raises env"
    and "length bodies = Suc n" and "list_all (places (pid p) 1) bodies"
  shows "map (\<lambda>r. fst r = 200) (fst (serve env d bodies)) = replicate n True @ [False]"
  using assms
proof (induction n arbitrary: d p bodies)
  case 0
  then obtain b where b: "bodies = [b]" by (cases bodies) auto
  obtain r d1 where c: "create_order env d b = (r, d1)" by (cases "create_order env d b")
  have "fst r \<noteq> 200"
  proof
    assume "fst r = 200"
    from placed_success [OF c this _ "0.prems"(1,2), of 1] "0.prems"(9) b
    have "1 \<le> stock p" by simp
    with "0.prems"(3) show False by simp
  qed
  with b c show ?case by simp
next
  case (Suc n)
  then obtain b bs where b: "bodies = b # bs" by (cases bodies) auto
  obtain r d1 where c: "create_order env d b = (r, d1)" by (cases "create_order env d b")
  from Suc.prems(9) b have pb: "places (pid p) 1 b" and pbs: "list_all (places (pid p) 1) bs"
    by simp_all
  from Suc.prems(3,4) have av: "is_available p" and le: "1 \<le> stock p" by simp_all
  from placed_valid [OF pb Suc.prems(1,2) av le Suc.prems(5,6,7)] c have ok: "fst r = 200" by simp
  let ?p = "update_stock p 1"
  from placed_success [OF c ok pb Suc.prems(1,2)]
  have ph: "phones d1 = map (\<lambda>x. if pid x = pid p then ?p else x) (phones d)" by simp
  have pp: "pid ?p = pid p" by (simp add: update_stock_simps)
  have "map pid (phones d1) = map pid (phones d)"
    unfolding ph by (rule map_update_row(1) [OF Suc.prems(2) pp])
  with Suc.prems(1) have dist1: "distinct (map pid (phones d1))" by simp
  have mem1: "?p \<in> set (phones d1)"
    unfolding ph by (rule map_update_row(2) [OF Suc.prems(2) pp])
  from Suc.prems(3) have st: "stock ?p = int n" by (simp add: update_stock_simps)
  from Suc.prems(3) av have av1: "0 < n \<longrightarrow> is_available ?p" by (simp add: update_stock_simps)
  from pbs pp have pbs1: "list_all (places (pid ?p) 1) bs" by simp
  from Suc.prems(8) b have len: "length bs = Suc n" by simp
  from Suc.IH [OF dist1 mem1 st av1 Suc.prems(5,6,7) len pbs1]
  have "map (\<lambda>r. fst r = 200) (fst (serve env d1 bs)) = replicate n True @ [False]" .
  with b c ok show ?case by (simp add: split_beta)
qed

lemma succeeded_Finished: "succeeded (Finished r) = (fst r = 200)"
  by (simp add: succeeded_def)

lemmas exec_defs = step_fetch_def step_insert_def step_save_def order_error_def succeeded_def

section \<open>The catalogue query\<close>

text \<open>
  C8: \<^verbatim>\<open>phones_api\<close> (GET /phones) writes nothing, and when the query does not raise it
  answers with the entries of exactly the phones that are available and have a positive
  stock, in the order of the table; in particular no listed phone has stock 0 or is
  unavailable.
\<close>

theorem phones_api_lists_available_in_stock:
  "snd (phones_api env d) = d \<and>
   (\<not> filter_raises env \<longrightarrow>
      (\<exists>ps. fst (phones_api env d)
              = Inr (JsonResponse (JObj [(''phones'', JArr (map phone_entry ps))]) 200)
          \<and> ps = filter (\<lambda>p. is_available p \<and> 0 < stock p) (phones d)
          \<and> set ps = {p \<in> set (phones d). is_available p \<and> 0 < stock p}
          \<and> (\<forall>p \<in> set ps. stock p \<noteq> 0 \<and> is_available p)))"
  by (auto simp: phones_api_def phones_filter_def)

theorem phones_api_lists_available_in_stock_witness:
  "\<not> filter_raises env0 \<and> snd (phones_api env0 db0) = db0 \<and>
   (\<exists>ps. fst (phones_api env0 db0)
            = Inr (JsonResponse (JObj [(''phones'', JArr (map phone_entry ps))]) 200)
        \<and> ps = [phone_a]
        \<and> (\<forall>p \<in> set ps. stock p \<noteq> 0 \<and> is_available p))"
  using phones_api_lists_available_in_stock [of env0 db0]
  by (simp add: env0_def db0_def phone_a_def phone_b_def)

section \<open>Order placement\<close>

text \<open>
  C5: when the five required fields are present, the quantity converts to \<open>q\<close>, the
  referenced phone \<open>p\<close> is in the table and available, and its stock is less than
  \<open>q\<close>, then \<^verbatim>\<open>create_order\<close> answers with status 400 and the message
  \<^verbatim>\<open>Only <stock> units available in stock\<close>, where \<^verbatim>\<open><stock>\<close> is the current stock of
  the phone in decimal notation (\<^verbatim>\<open>int()\<close> reads it back as that number, as long as it
  has no more digits than \<^verbatim>\<open>int()\<close> accepts), and leaves the database, hence the stock and
  the availability of the phone, as it was.
\<close>

theorem insufficient_stock_rejected:
  assumes "list_all truthy (required_fields data)"
    and "py_int (dict_get data ''quantity'' (JInt 1)) = Inr q"
    and "py_int (dict_get data ''phone_id'' JNull) = Inr (pid p)"
    and "distinct (map pid (phones d))" and "p \<in> set (phones d)" and "is_available p"
    and "\<not> get_raises env"
    and "stock p < q"
  shows "create_order env d (Some (JObj data)) =
    (JsonResponse
       (JObj [(''success'', JBool False),
              (''message'', JStr (''Only '' @ str_int (stock p) @ '' units available in stock''))])
       400, d)
    \<and> (\<bar>stock p\<bar> < 10 ^ max_str_digits \<longrightarrow>
          int_of_str (str_int (stock p)) = Inr (stock p))"
proof -
  have "phones_get env d (dict_get data ''phone_id'' JNull) = Inr p"
    using assms by (intro phones_get_found) simp_all
  with assms(1,2,8) have "create_order env d (Some (JObj data)) =
    (JsonResponse
       (JObj [(''success'', JBool False),
              (''message'', JStr (''Only '' @ str_int (stock p) @ '' units available in stock''))])
       400, d)"
    unfolding create_order_def create_order_try_def required_fields_def Let_def
    by simp
  then show ?thesis by (simp add: int_of_str_str_int)
qed

theorem insufficient_stock_rejected_witness:
  "stock (phone_a\<lparr>stock := 1\<rparr>) < 2
   \<and> create_order env0 db1 (Some (JObj (order_request (JInt 2)))) =
       (JsonResponse
          (JObj [(''success'', JBool False),
                 (''message'', JStr ''Only 1 units available in stock'')]) 400, db1)
   \<and> int_of_str ''1'' = Inr 1"
proof -
  have b: "\<bar>stock (phone_a\<lparr>stock := 1\<rparr>)\<bar> < 10 ^ max_str_digits"
    by (rule below_max_str_digits) simp
  from insufficient_stock_rejected
    [of "order_request (JInt 2)" 2 "phone_a\<lparr>stock := 1\<rparr>" db1 env0] b
  show ?thesis
    by (simp add: db1_eq required_fields_def dict_get_def order_request_def env0_def phone_a_def
        phone_b_def str_int_def str_nat.simps digit_char_def)
qed

text \<open>
  C4: an order for the quantity \<open>q\<close> of an available phone \<open>p\<close> succeeds (status 200)
  exactly when the required fields are present, \<open>q\<close> is at most the stock and no
  statement sent to the database raises. After a success the row of the phone has the
  stock \<open>stock p - q\<close>, and it is available if and only if that stock is not 0; its
  other columns are as before.
\<close>

theorem successful_order_decrements_stock:
  assumes "create_order env d (Some (JObj data)) = (r, d')"
    and "py_int (dict_get data ''quantity'' (JInt 1)) = Inr q"
    and "py_int (dict_get data ''phone_id'' JNull) = Inr (pid p)"
    and "distinct (map pid (phones d))" and "p \<in> set (phones d)" and "is_available p"
  shows "(fst r = 200 \<longleftrightarrow>
            list_all truthy (required_fields data) \<and> q \<le> stock p
            \<and> \<not> get_raises env \<and> \<not> create_raises env \<and> \<not> save_raises env)
       \<and> (fst r = 200 \<longrightarrow>
            filter (\<lambda>x. pid x = pid p) (phones d')
              = [p\<lparr>stock := stock p - q, is_available := stock p - q \<noteq> 0\<rparr>])"
proof (cases "fst r = 200")
  case True
  with create_order_cases [OF assms(1)] obtain data' q' p' where
    b: "Some (JObj data) = Some (JObj data')"
    and q': "py_int (dict_get data' ''quantity'' (JInt 1)) = Inr q'"
    and f: "list_all truthy (required_fields data')"
    and g: "phones_get env d (dict_get data' ''phone_id'' JNull) = Inr p'"
    and le: "q' \<le> stock p'" and c: "\<not> create_raises env"
    and s: "if save_raises env
            then fst r = 500 \<and> d' = with_order d (order_row data' q' p' d)
            else r = JsonResponse
                      (JObj [(''success'', JBool True),
                             (''message'', JStr ''Order placed successfully!''),
                             (''order_id'', JInt (last_order_id d + 1)),
                             (''total_price_php'',
                                JFloat (float_of_decimal (decimal_mul (price_php p') q')))]) 200
              \<and> d' = with_phone (with_order d (order_row data' q' p' d)) (update_stock p' q')"
    by auto
  from b have [simp]: "data' = data" by simp
  from q' assms(2) have [simp]: "q' = q" by simp
  from phones_get_sound [OF g] assms(3) have
    p': "p' \<in> set (phones d)" "pid p' = pid p" "\<not> get_raises env" by simp_all
  with assms(4,5) have [simp]: "p' = p" by (intro distinct_pid_eq [of "phones d"]) simp_all
  from s True have ns: "\<not> save_raises env"
    and d': "d' = with_phone (with_order d (order_row data q p d)) (update_stock p q)"
    by (auto split: if_splits)
  have "filter (\<lambda>x. pid x = pid p) (phones d') = [update_stock p q]"
    unfolding d' with_phone_def with_order_def
    using with_phone_row [OF assms(4,5), of "update_stock p q"]
    by (simp add: update_stock_simps)
  with True f le c ns p'(3) assms(6) show ?thesis
    by (simp add: update_stock_eq)
next
  case False
  have "\<not> (list_all truthy (required_fields data) \<and> q \<le> stock p
            \<and> \<not> get_raises env \<and> \<not> create_raises env \<and> \<not> save_raises env)"
  proof
    assume a: "list_all truthy (required_fields data) \<and> q \<le> stock p
            \<and> \<not> get_raises env \<and> \<not> create_raises env \<and> \<not> save_raises env"
    then have "phones_get env d (dict_get data ''phone_id'' JNull) = Inr p"
      using assms by (intro phones_get_found) simp_all
    from create_order_valid [OF assms(2) _ this] a assms(1) have "fst r = 200"
      by (auto simp: JsonResponse_def)
    with False show False by simp
  qed
  with False show ?thesis by simp
qed

theorem successful_order_decrements_stock_witness:
  "fst (fst (create_order env0 db0 (Some (JObj (order_request (JInt 2)))))) = 200
   \<and> filter (\<lambda>x. pid x = 1) (phones (snd (create_order env0 db0 (Some (JObj (order_request (JInt 2)))))))
       = [phone_a\<lparr>stock := 1, is_available := True\<rparr>]
   \<and> fst (fst (create_order env0 db0 (Some (JObj (order_request (JInt 3)))))) = 200
   \<and> filter (\<lambda>x. pid x = 1) (phones (snd (create_order env0 db0 (Some (JObj (order_request (JInt 3)))))))
       = [phone_a\<lparr>stock := 0, is_available := False\<rparr>]"
  using successful_order_decrements_stock [OF surjective_pairing, of "order_request (JInt 2)" 2 phone_a db0 env0]
    successful_order_decrements_stock [OF surjective_pairing, of "order_request (JInt 3)" 3 phone_a db0 env0]
  by (simp add: required_fields_def dict_get_def order_request_def env0_def db0_def phone_a_def
      phone_b_def)

text \<open>
  C7: the invariant that a phone without stock is not available is preserved by every
  view: by \<^verbatim>\<open>create_order\<close> on any request, whether it succeeds or fails, by
  \<^verbatim>\<open>phones_api\<close> and by \<^verbatim>\<open>chat_api\<close>.
\<close>

theorem stock_invariant_preserved:
  assumes "stock_invariant d"
  shows "stock_invariant (snd (create_order env d body))
       \<and> stock_invariant (snd (phones_api env d))
       \<and> stock_invariant (snd (snd (chat_api env d body')))"
proof -
  obtain r d' where rd: "create_order env d body = (r, d')" by (cases "create_order env d body")
  have "stock_invariant d'"
    using create_order_cases [OF rd]
  proof (elim disjE exE conjE)
    assume "d' = d"
    with assms show ?thesis by simp
  next
    fix data q p
    assume s: "if save_raises env
            then fst r = 500 \<and> d' = with_order d (order_row data q p d)
            else r = JsonResponse
                      (JObj [(''success'', JBool True),
                             (''message'', JStr ''Order placed successfully!''),
                             (''order_id'', JInt (last_order_id d + 1)),
                             (''total_price_php'',
                                JFloat (float_of_decimal (decimal_mul (price_php p) q)))]) 200
              \<and> d' = with_phone (with_order d (order_row data q p d)) (update_stock p q)"
    have "stock (update_stock p q) \<noteq> 0 \<or> \<not> is_available (update_stock p q)"
      by (simp add: update_stock_simps)
    with assms have "stock_invariant (with_phone (with_order d (order_row data q p d)) (update_stock p q))"
      by (intro stock_invariant_with_phone) (simp_all add: stock_invariant_with_order)
    with s assms show ?thesis
      by (auto simp: stock_invariant_with_order split: if_splits)
  qed
  with rd assms show ?thesis by (simp add: chat_api_db phones_api_db)
qed

theorem stock_invariant_preserved_witness:
  "stock_invariant db0
   \<and> stock_invariant (snd (create_order env0 db0 (Some (JObj (order_request (JInt 3))))))
   \<and> phones (snd (create_order env0 db0 (Some (JObj (order_request (JInt 3))))))
       = [phone_a\<lparr>stock := 0, is_available := False\<rparr>, phone_b]
   \<and> stock_invariant (snd (phones_api env0 db0))
   \<and> stock_invariant (snd (snd (chat_api env0 db0 (Some (JObj chat_request)))))"
proof -
  have i: "stock_invariant db0"
    by (simp add: stock_invariant_def db0_def phone_a_def phone_b_def)
  have p: "phones (snd (create_order env0 db0 (Some (JObj (order_request (JInt 3))))))
       = [phone_a\<lparr>stock := 0, is_available := False\<rparr>, phone_b]"
    by (simp add: eval_defs)
  from stock_invariant_preserved [OF i, of env0 "Some (JObj (order_request (JInt 3)))"
      "Some (JObj chat_request)"] i p
  show ?thesis by simp
qed

text \<open>
  C1 (as the code has it): a successful call of \<^verbatim>\<open>create_order\<close> (status 200) appends
  exactly one order, the one of the request, and replaces exactly one row of the phone
  table, the row of the ordered phone, by that row with the stock updated. A call that
  fails leaves both tables as they were, with one exception: when the request is valid,
  the phone is available and has the stock, the order has been inserted and then
  \<^verbatim>\<open>phone.save()\<close> raises, the answer has status 500, the new order stays in the order
  table and the phone table is unchanged. The view has no transaction around the two
  writes.
\<close>

theorem order_and_stock_writes:
  assumes "create_order env d body = (r, d')" and "distinct (map pid (phones d))"
  shows "(fst r = 200 \<longrightarrow>
            (\<exists>data q p i. body = Some (JObj data)
               \<and> py_int (dict_get data ''quantity'' (JInt 1)) = Inr q
               \<and> py_int (dict_get data ''phone_id'' JNull) = Inr (pid p)
               \<and> i < length (phones d) \<and> phones d ! i = p
               \<and> d' = d\<lparr>phones := (phones d)[i := update_stock p q],
                         orders := orders d @ [order_row data q p d],
                         last_order_id := last_order_id d + 1\<rparr>))
       \<and> (fst r \<noteq> 200 \<longrightarrow>
            d' = d
          \<or> (\<exists>data q p. body = Some (JObj data)
               \<and> list_all truthy (required_fields data)
               \<and> py_int (dict_get data ''quantity'' (JInt 1)) = Inr q
               \<and> py_int (dict_get data ''phone_id'' JNull) = Inr (pid p)
               \<and> p \<in> set (phones d) \<and> is_available p \<and> q \<le> stock p
               \<and> \<not> get_raises env \<and> \<not> create_raises env \<and> save_raises env
               \<and> fst r = 500
               \<and> d' = d\<lparr>orders := orders d @ [order_row data q p d],
                         last_order_id := last_order_id d + 1\<rparr>))"
  using create_order_cases [OF assms(1)]
proof (elim disjE exE conjE)
  assume "fst r \<noteq> 200" "d' = d"
  then show ?thesis by simp
next
  fix data q p
  assume b: "body = Some (JObj data)"
    and q: "py_int (dict_get data ''quantity'' (JInt 1)) = Inr q"
    and f: "list_all truthy (required_fields data)"
    and g: "phones_get env d (dict_get data ''phone_id'' JNull) = Inr p"
    and le: "q \<le> stock p" and c: "\<not> create_raises env"
    and s: "if save_raises env
            then fst r = 500 \<and> d' = with_order d (order_row data q p d)
            else r = JsonResponse
                      (JObj [(''success'', JBool True),
                             (''message'', JStr ''Order placed successfully!''),
                             (''order_id'', JInt (last_order_id d + 1)),
                             (''total_price_php'',
                                JFloat (float_of_decimal (decimal_mul (price_php p) q)))]) 200
              \<and> d' = with_phone (with_order d (order_row data q p d)) (update_stock p q)"
  from phones_get_sound [OF g] have p: "p \<in> set (phones d)" "is_available p"
    "py_int (dict_get data ''phone_id'' JNull) = Inr (pid p)" "\<not> get_raises env"
    by simp_all
  show ?thesis
  proof (cases "save_raises env")
    case True
    with s have "fst r = 500"
      and "d' = d\<lparr>orders := orders d @ [order_row data q p d],
                    last_order_id := last_order_id d + 1\<rparr>"
      by (simp_all add: with_order_def)
    with b q f p le c True show ?thesis by auto
  next
    case False
    with s have r: "fst r = 200"
      and d': "d' = with_phone (with_order d (order_row data q p d)) (update_stock p q)"
      by (simp_all add: JsonResponse_def)
    from with_phone_single_row [OF assms(2) p(1), of "update_stock p q"]
    obtain i where i: "i < length (phones d)" "phones d ! i = p"
      and m: "map (\<lambda>r. if pid r = pid (update_stock p q) then update_stock p q else r) (phones d)
         = (phones d)[i := update_stock p q]"
      by (auto simp: update_stock_simps)
    from m have "d' = d\<lparr>phones := (phones d)[i := update_stock p q],
                         orders := orders d @ [order_row data q p d],
                         last_order_id := last_order_id d + 1\<rparr>"
      unfolding d' with_phone_def with_order_def by simp
    with b q p(3) i have "\<exists>data q p i. body = Some (JObj data)
               \<and> py_int (dict_get data ''quantity'' (JInt 1)) = Inr q
               \<and> py_int (dict_get data ''phone_id'' JNull) = Inr (pid p)
               \<and> i < length (phones d) \<and> phones d ! i = p
               \<and> d' = d\<lparr>phones := (phones d)[i := update_stock p q],
                         orders := orders d @ [order_row data q p d],
                         last_order_id := last_order_id d + 1\<rparr>"
      by blast
    with r show ?thesis by simp
  qed
qed

theorem order_and_stock_writes_witness:
  "distinct (map pid (phones db0))
   \<and> fst (fst (create_order env0 db0 (Some (JObj (order_request (JInt 2)))))) = 200
   \<and> (\<exists>data q p i. Some (JObj (order_request (JInt 2))) = Some (JObj data)
         \<and> py_int (dict_get data ''quantity'' (JInt 1)) = Inr q
         \<and> py_int (dict_get data ''phone_id'' JNull) = Inr (pid p)
         \<and> i < length (phones db0) \<and> phones db0 ! i = p
         \<and> snd (create_order env0 db0 (Some (JObj (order_request (JInt 2)))))
           = db0\<lparr>phones := (phones db0)[i := update_stock p q],
                   orders := orders db0 @ [order_row data q p db0],
                   last_order_id := last_order_id db0 + 1\<rparr>)
   \<and> fst (fst (create_order env0 db0 (Some (JObj (order_request (JInt 5)))))) = 400
   \<and> snd (create_order env0 db0 (Some (JObj (order_request (JInt 5))))) = db0"
proof -
  have d: "distinct (map pid (phones db0))"
    by (simp add: db0_def phone_a_def phone_b_def)
  have s: "fst (fst (create_order env0 db0 (Some (JObj (order_request (JInt 2)))))) = 200"
    by (simp add: eval_defs)
  have f: "fst (fst (create_order env0 db0 (Some (JObj (order_request (JInt 5)))))) = 400"
    by (simp add: eval_defs)
  have n: "\<not> save_raises env0" by (simp add: env0_def)
  from order_and_stock_writes [OF surjective_pairing d, of env0 "Some (JObj (order_request (JInt 5)))"]
    f n
  have u: "snd (create_order env0 db0 (Some (JObj (order_request (JInt 5))))) = db0" by simp
  from order_and_stock_writes [OF surjective_pairing d, of env0 "Some (JObj (order_request (JInt 2)))"]
    s d f u
  show ?thesis by simp
qed

text \<open>
  The claim as stated fails: with a database that raises on \<^verbatim>\<open>phone.save()\<close>, the request of
  two phones is answered with status 500, and yet the order table has one more row while
  the stock is not decremented.
\<close>

theorem order_without_decrement_counterexample:
  "fst (fst (create_order env_save_fails db0 (Some (JObj (order_request (JInt 2)))))) = 500
   \<and> length (orders (snd (create_order env_save_fails db0 (Some (JObj (order_request (JInt 2)))))))
       = Suc (length (orders db0))
   \<and> phones (snd (create_order env_save_fails db0 (Some (JObj (order_request (JInt 2))))))
       = phones db0"
  by (simp add: eval_defs env_save_fails_def)

text \<open>
  C3 (as the code has it): when the quantity (1 if omitted) converts with \<^verbatim>\<open>int()\<close> and one
  of \<^verbatim>\<open>phone_id\<close>, \<^verbatim>\<open>customer_name\<close>, \<^verbatim>\<open>customer_email\<close>, \<^verbatim>\<open>customer_phone\<close>,
  \<^verbatim>\<open>shipping_address\<close> is missing or empty (not true as a Python value), the answer is
  status 400 with the message \<^verbatim>\<open>All fields are required\<close> and nothing is written. When the
  quantity does not convert with \<^verbatim>\<open>int()\<close>, the conversion raises before the fields are
  looked at, and the handler answers with status 500; nothing is written either. The view
  does not test the sign of a quantity that converts: with the five fields present the
  request goes on to the query for the phone, and is answered with status 404 when no
  available phone has the key.
\<close>

theorem missing_field_or_bad_quantity_rejected:
  "(py_int (dict_get data ''quantity'' (JInt 1)) = Inr q
      \<and> \<not> list_all truthy (required_fields data) \<longrightarrow>
      create_order env d (Some (JObj data)) =
        (JsonResponse
           (JObj [(''success'', JBool False),
                  (''message'', JStr ''All fields are required'')]) 400, d))
   \<and> (py_int (dict_get data ''quantity'' (JInt 1)) = Inl e \<longrightarrow>
      create_order env d (Some (JObj data)) =
        (JsonResponse
           (JObj [(''success'', JBool False),
                  (''message'', JStr (''Error creating order: '' @ exn_text env e))]) 500, d))
   \<and> (py_int (dict_get data ''quantity'' (JInt 1)) = Inr q
      \<and> list_all truthy (required_fields data)
      \<and> py_int (dict_get data ''phone_id'' JNull) = Inr i \<and> \<not> get_raises env
      \<and> filter (\<lambda>p. pid p = i \<and> is_available p) (phones d) = [] \<longrightarrow>
      create_order env d (Some (JObj data)) =
        (JsonResponse
           (JObj [(''success'', JBool False),
                  (''message'', JStr ''Phone not found or not available'')]) 404, d))"
  unfolding create_order_def create_order_try_def required_fields_def phones_get_def Let_def
  by auto

theorem missing_field_or_bad_quantity_rejected_witness:
  "\<not> list_all truthy (required_fields (filter (\<lambda>kv. fst kv \<noteq> ''customer_email'') (order_request (JInt 1))))
   \<and> create_order env0 db0
        (Some (JObj (filter (\<lambda>kv. fst kv \<noteq> ''customer_email'') (order_request (JInt 1))))) =
        (JsonResponse
           (JObj [(''success'', JBool False),
                  (''message'', JStr ''All fields are required'')]) 400, db0)
   \<and> py_int (dict_get (order_request (JStr ''two'')) ''quantity'' (JInt 1)) = Inl ValueError
   \<and> create_order env0 db0 (Some (JObj (order_request (JStr ''two'')))) =
        (JsonResponse
           (JObj [(''success'', JBool False),
                  (''message'', JStr ''Error creating order: error'')]) 500, db0)
   \<and> create_order env0 db0 (Some (JObj unknown_phone_request)) =
        (JsonResponse
           (JObj [(''success'', JBool False),
                  (''message'', JStr ''Phone not found or not available'')]) 404, db0)"
proof -
  have a: "create_order env0 db0
        (Some (JObj (filter (\<lambda>kv. fst kv \<noteq> ''customer_email'') (order_request (JInt 1))))) =
        (JsonResponse
           (JObj [(''success'', JBool False),
                  (''message'', JStr ''All fields are required'')]) 400, db0)"
    using missing_field_or_bad_quantity_rejected
      [of "filter (\<lambda>kv. fst kv \<noteq> ''customer_email'') (order_request (JInt 1))" 1 env0 db0]
    by (simp add: required_fields_def dict_get_def order_request_def)
  have v: "py_int (dict_get (order_request (JStr ''two'')) ''quantity'' (JInt 1)) = Inl ValueError"
    by (simp add: dict_get_def order_request_def int_of_str_def digits_value_def strip_def
        is_space_def digits_nat_def is_digit_def)
  have b: "create_order env0 db0 (Some (JObj (order_request (JStr ''two'')))) =
        (JsonResponse
           (JObj [(''success'', JBool False),
                  (''message'', JStr ''Error creating order: error'')]) 500, db0)"
    using missing_field_or_bad_quantity_rejected
      [of "order_request (JStr ''two'')" 0 env0 db0 ValueError] v
    by (simp add: env0_def)
  have c: "create_order env0 db0 (Some (JObj unknown_phone_request)) =
        (JsonResponse
           (JObj [(''success'', JBool False),
                  (''message'', JStr ''Phone not found or not available'')]) 404, db0)"
    using missing_field_or_bad_quantity_rejected [of unknown_phone_request "- 1" env0 db0 _ 99]
    by (simp add: required_fields_def dict_get_def unknown_phone_request_def env0_def db0_def
        phone_a_def phone_b_def)
  have n: "\<not> list_all truthy
      (required_fields (filter (\<lambda>kv. fst kv \<noteq> ''customer_email'') (order_request (JInt 1))))"
    by (simp add: required_fields_def dict_get_def order_request_def)
  from n a v b c show ?thesis by simp
qed

text \<open>
  The claim as stated fails: a request with all fields and the quantity \<^verbatim>\<open>"abc"\<close> is
  answered with status 500, not 400; and a request with all fields and the quantity
  \<open>-1\<close> is not rejected by the validation: for a phone that is not in the table it is
  answered with status 404.
\<close>

theorem quantity_validation_counterexample:
  "list_all truthy (required_fields (order_request (JStr ''abc'')))
   \<and> fst (fst (create_order env0 db0 (Some (JObj (order_request (JStr ''abc'')))))) = 500
   \<and> list_all truthy (required_fields unknown_phone_request)
   \<and> dict_get unknown_phone_request ''quantity'' (JInt 1) = JInt (- 1)
   \<and> fst (fst (create_order env0 db0 (Some (JObj unknown_phone_request)))) = 404"
  by (simp add: eval_defs required_fields_def unknown_phone_request_def int_of_str_def
      digits_value_def strip_def is_space_def digits_nat_def is_digit_def)

text \<open>
  C6 (as the code has it): on success the order that is stored carries the product of the
  price and the quantity as \<^verbatim>\<open>Decimal\<close> multiplication computes it, which is the exact
  product whenever that has at most 28 significant digits. The total in the answer is
  \<^verbatim>\<open>float(total_price)\<close>, the binary floating-point number nearest to the stored total;
  it equals the stored total when that is a whole number of pesos below \<open>2 ^ 53\<close>, as
  for 25999.00 times 2, which gives 51998.
\<close>

theorem order_total_price:
  assumes "create_order env d (Some (JObj data)) = (r, d')" and "fst r = 200"
    and "py_int (dict_get data ''quantity'' (JInt 1)) = Inr q"
    and "py_int (dict_get data ''phone_id'' JNull) = Inr (pid p)"
    and "distinct (map pid (phones d))" and "p \<in> set (phones d)"
  shows "(\<exists>row. orders d' = orders d @ [row] \<and> o_phone row = pid p \<and> o_quantity row = q
            \<and> o_total_price_php row = decimal_mul (price_php p) q)
       \<and> snd r = JObj [(''success'', JBool True),
                       (''message'', JStr ''Order placed successfully!''),
                       (''order_id'', JInt (last_order_id d + 1)),
                       (''total_price_php'',
                          JFloat (float_of_decimal (decimal_mul (price_php p) q)))]
       \<and> (\<bar>price_php p * q\<bar> < 10 ^ 28 \<longrightarrow> decimal_mul (price_php p) q = price_php p * q)
       \<and> (\<forall>m. price_php p * q = 100 * m \<and> \<bar>m\<bar> < 2 ^ 53 \<longrightarrow>
              float_of_decimal (decimal_mul (price_php p) q) = Finite (of_int m))"
proof -
  from create_order_cases [OF assms(1)] assms(2) obtain data' q' p' where
    b: "Some (JObj data) = Some (JObj data')"
    and q': "py_int (dict_get data' ''quantity'' (JInt 1)) = Inr q'"
    and g: "phones_get env d (dict_get data' ''phone_id'' JNull) = Inr p'"
    and s: "if save_raises env
            then fst r = 500 \<and> d' = with_order d (order_row data' q' p' d)
            else r = JsonResponse
                      (JObj [(''success'', JBool True),
                             (''message'', JStr ''Order placed successfully!''),
                             (''order_id'', JInt (last_order_id d + 1)),
                             (''total_price_php'',
                                JFloat (float_of_decimal (decimal_mul (price_php p') q')))]) 200
              \<and> d' = with_phone (with_order d (order_row data' q' p' d)) (update_stock p' q')"
    by auto
  from b have [simp]: "data' = data" by simp
  from q' assms(3) have [simp]: "q' = q" by simp
  from phones_get_sound [OF g] assms(4) have "p' \<in> set (phones d)" "pid p' = pid p" by simp_all
  with assms(5,6) have [simp]: "p' = p" by (intro distinct_pid_eq [of "phones d"]) simp_all
  from s assms(2) have r: "snd r = JObj [(''success'', JBool True),
                       (''message'', JStr ''Order placed successfully!''),
                       (''order_id'', JInt (last_order_id d + 1)),
                       (''total_price_php'',
                          JFloat (float_of_decimal (decimal_mul (price_php p) q)))]"
    and d': "d' = with_phone (with_order d (order_row data q p d)) (update_stock p q)"
    by (auto simp: JsonResponse_def split: if_splits)
  have o: "\<exists>row. orders d' = orders d @ [row] \<and> o_phone row = pid p \<and> o_quantity row = q
            \<and> o_total_price_php row = decimal_mul (price_php p) q"
    unfolding d' by (simp add: with_phone_def with_order_def order_row_def)
  have w: "float_of_decimal (decimal_mul (price_php p) q) = Finite (of_int m)"
    if "price_php p * q = 100 * m" "\<bar>m\<bar> < 2 ^ 53" for m
  proof -
    from that have "\<bar>price_php p * q\<bar> < 100 * 2 ^ 53" by simp
    also have "\<dots> < (10 ^ 28 :: int)" by simp
    finally have "decimal_mul (price_php p) q = 100 * m"
      using that(1) by (simp add: decimal_mul_exact)
    with that(2) show ?thesis by (simp add: float_of_decimal_whole)
  qed
  from o r w show ?thesis by (auto simp: decimal_mul_exact)
qed

theorem order_total_price_witness:
  "fst (fst (create_order env0 db0 (Some (JObj (order_request (JInt 2)))))) = 200
   \<and> price_php phone_a * 2 = 100 * 51998
   \<and> map o_total_price_php (orders (snd (create_order env0 db0 (Some (JObj (order_request (JInt 2)))))))
       = [5199800]
   \<and> snd (fst (create_order env0 db0 (Some (JObj (order_request (JInt 2)))))) =
       JObj [(''success'', JBool True),
             (''message'', JStr ''Order placed successfully!''),
             (''order_id'', JInt 1),
             (''total_price_php'', JFloat (Finite 51998))]"
proof -
  have s: "fst (fst (create_order env0 db0 (Some (JObj (order_request (JInt 2)))))) = 200"
    by (simp add: eval_defs)
  have h: "py_int (dict_get (order_request (JInt 2)) ''quantity'' (JInt 1)) = Inr 2"
    "py_int (dict_get (order_request (JInt 2)) ''phone_id'' JNull) = Inr (pid phone_a)"
    "distinct (map pid (phones db0))" "phone_a \<in> set (phones db0)"
    by (simp_all add: dict_get_def order_request_def db0_def phone_a_def phone_b_def)
  have m: "price_php phone_a * 2 = 100 * 51998" "\<bar>51998 :: int\<bar> < 2 ^ 53"
    by (simp_all add: phone_a_def)
  from order_total_price [OF surjective_pairing s h] m s
  show ?thesis by (auto simp: db0_def phone_a_def)
qed

text \<open>
  The claim as stated fails for the total in the answer: for a price of
  90071992547409.93 and the quantity 1 the stored total is exact, but the answer carries
  the float 90071992547409.9375.
\<close>

theorem float_total_counterexample:
  "fst (create_order env0 db_c (Some (JObj (order_request (JInt 1))))) =
     JsonResponse
       (JObj [(''success'', JBool True),
              (''message'', JStr ''Order placed successfully!''),
              (''order_id'', JInt 1),
              (''total_price_php'', JFloat (Finite (1441151880758559 / 16)))]) 200
   \<and> map o_total_price_php (orders (snd (create_order env0 db_c (Some (JObj (order_request (JInt 1)))))))
       = [9007199254740993]
   \<and> (1441151880758559 / 16 :: rat) \<noteq> 9007199254740993 / 100"
  by (simp add: eval_defs db_c_def phone_c_def)

section \<open>Overlapping order placements\<close>

text \<open>
  C2 (as the code has it): when two placements for the same phone are handled one after
  the other and their quantities together exceed the stock, they do not both succeed; and
  when \<open>n + 1\<close> placements of quantity 1 for a phone with the stock \<open>n\<close> are handled one
  after the other and no statement raises, the first \<open>n\<close> succeed and the last one fails.
  The view does nothing to order the statements of placements that overlap.
\<close>

theorem serial_placements_respect_stock:
  assumes "distinct (map pid (phones d))" and "p \<in> set (phones d)"
  shows "(places (pid p) q1 b1 \<and> places (pid p) q2 b2 \<and> stock p < q1 + q2 \<longrightarrow>
          map succeeded (snd (exec env (serial 2) (d, [Pending b1, Pending b2]))) \<noteq> [True, True])
       \<and> (stock p = int n \<and> (0 < n \<longrightarrow> is_available p)
           \<and> \<not> get_raises env \<and> \<not> create_raises env \<and> \<not> save_raises env
           \<and> length bodies = Suc n \<and> list_all (places (pid p) 1) bodies \<longrightarrow>
          map succeeded (snd (exec env (serial (Suc n)) (d, map Pending bodies)))
            = replicate n True @ [False])"
proof (intro conjI impI)
  assume a: "places (pid p) q1 b1 \<and> places (pid p) q2 b2 \<and> stock p < q1 + q2"
  have "serial 2 = serial (length [b1, b2])" by (simp add: numeral_2_eq_2)
  then have "exec env (serial 2) (d, [Pending b1, Pending b2])
      = (snd (serve env d [b1, b2]), map Finished (fst (serve env d [b1, b2])))"
    using exec_serial_serve [of env "[b1, b2]" d] by (simp del: serve.simps)
  then have "map succeeded (snd (exec env (serial 2) (d, [Pending b1, Pending b2])))
      = map (\<lambda>r. fst r = 200) (fst (serve env d [b1, b2]))"
    by (simp add: succeeded_Finished del: serve.simps)
  moreover from serve_pair [OF assms, of q1 b1 q2 b2 env] a
  have "\<not> list_all (\<lambda>r. fst r = 200) (fst (serve env d [b1, b2]))" by simp
  then have "map (\<lambda>r. fst r = 200) (fst (serve env d [b1, b2])) \<noteq> [True, True]"
    by (auto simp: split_beta)
  ultimately show "map succeeded (snd (exec env (serial 2) (d, [Pending b1, Pending b2]))) \<noteq> [True, True]"
    by simp
next
  assume a: "stock p = int n \<and> (0 < n \<longrightarrow> is_available p)
           \<and> \<not> get_raises env \<and> \<not> create_raises env \<and> \<not> save_raises env
           \<and> length bodies = Suc n \<and> list_all (places (pid p) 1) bodies"
  then have l: "Suc n = length bodies" by simp
  have "map succeeded (snd (exec env (serial (Suc n)) (d, map Pending bodies)))
      = map (\<lambda>r. fst r = 200) (fst (serve env d bodies))"
    unfolding l exec_serial_serve by (simp add: succeeded_Finished)
  also from a have "\<dots> = replicate n True @ [False]"
    by (intro serve_units [OF assms]) simp_all
  finally show "map succeeded (snd (exec env (serial (Suc n)) (d, map Pending bodies)))
            = replicate n True @ [False]" .
qed

theorem serial_placements_respect_stock_witness:
  "map succeeded (snd (exec env0 (serial 2)
        (db_last, [Pending (Some (JObj (order_request (JInt 1)))),
                   Pending (Some (JObj (order_request (JInt 1))))]))) = [True, False]"
proof -
  let ?b = "Some (JObj (order_request (JInt 1)))"
  let ?p = "phone_a\<lparr>stock := 1\<rparr>"
  have d: "distinct (map pid (phones db_last))" "?p \<in> set (phones db_last)"
    by (simp_all add: db_last_def)
  have h: "places (pid ?p) 1 ?b" "stock ?p = int 1" "is_available ?p"
    "\<not> get_raises env0" "\<not> create_raises env0" "\<not> save_raises env0"
    by (simp_all add: places_def required_fields_def dict_get_def order_request_def phone_a_def
        env0_def)
  from serial_placements_respect_stock [OF d, of 1 ?b 1 ?b env0 1 "[?b, ?b]"] h
  show ?thesis by (simp add: numeral_2_eq_2)
qed

text \<open>
  The claim as stated fails: two placements of quantity 1 for a phone with stock 1, whose
  statements alternate, both read the stock 1, both insert their order and both write the
  stock 0; both are answered with status 200.
\<close>

theorem concurrent_placements_counterexample:
  "places 1 1 (Some (JObj (order_request (JInt 1))))
   \<and> map stock (phones db_last) = [1]
   \<and> map succeeded (snd (exec env0 [0, 1, 0, 1, 0, 1]
        (db_last, [Pending (Some (JObj (order_request (JInt 1)))),
                   Pending (Some (JObj (order_request (JInt 1))))]))) = [True, True]
   \<and> map stock (phones (fst (exec env0 [0, 1, 0, 1, 0, 1]
        (db_last, [Pending (Some (JObj (order_request (JInt 1)))),
                   Pending (Some (JObj (order_request (JInt 1))))])))) = [0]
   \<and> length (orders (fst (exec env0 [0, 1, 0, 1, 0, 1]
        (db_last, [Pending (Some (JObj (order_request (JInt 1)))),
                   Pending (Some (JObj (order_request (JInt 1))))])))) = 2"
  by (simp add: places_def required_fields_def db_last_def exec_defs eval_defs)

section \<open>The chat view\<close>

text \<open>
  C10: when the body of a chat request is a JSON object whose \<^verbatim>\<open>message\<close> is missing or
  empty (not true as a Python value), \<^verbatim>\<open>chat_api\<close> answers with status 400 and
  \<^verbatim>\<open>success: false\<close>, sends no request to the chat service, and leaves the database as it
  was.
\<close>

theorem empty_message_rejected:
  assumes "map_of data ''message'' = None
         \<or> (\<exists>v. map_of data ''message'' = Some v \<and> \<not> truthy v)"
  shows "chat_api env d (Some (JObj data)) =
    (JsonResponse
       (JObj [(''response'', JStr ''Please provide a message.''),
              (''success'', JBool False)]) 400, [], d)"
proof -
  from assms have "\<not> truthy (dict_get data ''message'' (JStr []))"
    by (auto simp: dict_get_def)
  then show ?thesis
    by (simp add: chat_api_def chat_api_try_def)
qed

theorem empty_message_rejected_witness:
  "map_of [(''history'', JArr history12)] ''message'' = None
   \<and> chat_api env0 db0 (Some (JObj [(''history'', JArr history12)])) =
      (JsonResponse
         (JObj [(''response'', JStr ''Please provide a message.''),
                (''success'', JBool False)]) 400, [], db0)
   \<and> chat_api env0 db0 (Some (JObj [(''message'', JStr [])])) =
      (JsonResponse
         (JObj [(''response'', JStr ''Please provide a message.''),
                (''success'', JBool False)]) 400, [], db0)"
  using empty_message_rejected [of "[(''history'', JArr history12)]" env0 db0]
    empty_message_rejected [of "[(''message'', JStr [])]" env0 db0]
  by simp

text \<open>
  C9: for a chat request with a message and a history list \<open>hs\<close> of any length, whose last
  ten entries are the dictionaries \<open>ms\<close>, \<^verbatim>\<open>chat_api\<close> sends exactly one request to the
  chat service. Its messages are the system prompt, then the role and content of the
  entries \<open>ms\<close> in their order, that is of the last \<open>min 10 (length hs)\<close> entries of the
  history, then the message of the user. Earlier entries of the history are not sent and
  not looked at. When one of the last ten entries is not a dictionary, nothing is sent.
\<close>

theorem chat_forwards_last_ten_turns:
  assumes "truthy (dict_get data ''message'' (JStr []))"
    and "dict_get data ''history'' (JArr []) = JArr hs"
  shows "(drop (length hs - 10) hs = map JObj ms \<longrightarrow>
      fst (snd (chat_api env d (Some (JObj data)))) =
        [\<lparr>url = ''https://openrouter.ai/api/v1/chat/completions'',
          headers = [(''Authorization'', ''Bearer '' @ openrouter_api_key env),
                     (''Content-Type'', ''application/json'')],
          payload =
            JObj [(''model'', JStr ''openai/gpt-3.5-turbo''),
                  (''messages'',
                     JArr (JObj [(''role'', JStr ''system''),
                                 (''content'', JStr (system_prompt env (phones_context env d)))]
                           # map turn_message ms
                           @ [JObj [(''role'', JStr ''user''),
                                    (''content'', dict_get data ''message'' (JStr []))]])),
                  (''temperature'', JFloat (float_of_fraction 7 10)),
                  (''max_tokens'', JInt 500)],
          timeout = 30\<rparr>]
      \<and> length ms = min 10 (length hs))
    \<and> ((\<forall>ms'. drop (length hs - 10) hs \<noteq> map JObj ms') \<longrightarrow>
      fst (snd (chat_api env d (Some (JObj data)))) = [])"
proof (intro conjI impI)
  have sent: "fst (snd (chat_api env d (Some (JObj data)))) = snd (chat_api_try env d (Some (JObj data)))"
    by (simp add: chat_api_def split: prod.splits sum.splits exn.splits)
  {
    assume m: "drop (length hs - 10) hs = map JObj ms"
    with assms(2) have h: "history_messages (dict_get data ''history'' (JArr [])) = Inr (map turn_message ms)"
      by (simp add: history_messages_def turns_map)
    from m have "length (map JObj ms) = length (drop (length hs - 10) hs)" by simp
    then show "length ms = min 10 (length hs)" by auto
    from assms(1) h show "fst (snd (chat_api env d (Some (JObj data)))) =
        [\<lparr>url = ''https://openrouter.ai/api/v1/chat/completions'',
          headers = [(''Authorization'', ''Bearer '' @ openrouter_api_key env),
                     (''Content-Type'', ''application/json'')],
          payload =
            JObj [(''model'', JStr ''openai/gpt-3.5-turbo''),
                  (''messages'',
                     JArr (JObj [(''role'', JStr ''system''),
                                 (''content'', JStr (system_prompt env (phones_context env d)))]
                           # map turn_message ms
                           @ [JObj [(''role'', JStr ''user''),
                                    (''content'', dict_get data ''message'' (JStr []))]])),
                  (''temperature'', JFloat (float_of_fraction 7 10)),
                  (''max_tokens'', JInt 500)],
          timeout = 30\<rparr>]"
      unfolding sent by (simp add: chat_api_try_def Let_def split: sum.splits)
  }
  {
    assume n: "\<forall>ms'. drop (length hs - 10) hs \<noteq> map JObj ms'"
    have "\<exists>e. history_messages (dict_get data ''history'' (JArr [])) = Inl e"
    proof (cases "turns (drop (length hs - 10) hs)")
      case (Inl e)
      with assms(2) show ?thesis by (simp add: history_messages_def)
    next
      case (Inr r)
      from turns_Inr [OF this] n show ?thesis by blast
    qed
    with assms(1) show "fst (snd (chat_api env d (Some (JObj data)))) = []"
      unfolding sent by (auto simp: chat_api_try_def Let_def)
  }
qed

theorem chat_forwards_last_ten_turns_witness:
  "length history12 = 12
   \<and> fst (snd (chat_api env0 db0 (Some (JObj chat_request)))) =
    [\<lparr>url = ''https://openrouter.ai/api/v1/chat/completions'',
      headers = [(''Authorization'', ''Bearer sk-test''),
                 (''Content-Type'', ''application/json'')],
      payload =
        JObj [(''model'', JStr ''openai/gpt-3.5-turbo''),
              (''messages'',
                 JArr (JObj [(''role'', JStr ''system''),
                             (''content'', JStr ''Available phones: Samsung A54'')]
                       # map (\<lambda>i. JObj [(''role'', JStr ''user''), (''content'', JInt i)])
                           [3, 4, 5, 6, 7, 8, 9, 10, 11, 12]
                       @ [JObj [(''role'', JStr ''user''),
                                (''content'', JStr ''Which phone has the best camera?'')]])),
              (''temperature'', JFloat (float_of_fraction 7 10)),
              (''max_tokens'', JInt 500)],
      timeout = 30\<rparr>]
   \<and> fst (snd (chat_api env0 db0
          (Some (JObj [(''message'', JStr ''Hello''), (''history'', JArr [JStr ''Hi''])])))) = []"
proof -
  have n: "\<forall>ms'. drop (length [JStr ''Hi''] - 10) [JStr ''Hi''] \<noteq> map JObj ms'"
    by (auto simp: Cons_eq_map_conv)
  have "fst (snd (chat_api env0 db0
          (Some (JObj [(''message'', JStr ''Hello''), (''history'', JArr [JStr ''Hi''])])))) = []"
    using chat_forwards_last_ten_turns
      [of "[(''message'', JStr ''Hello''), (''history'', JArr [JStr ''Hi''])]"
        "[JStr ''Hi'']" "[]" env0 db0] n
    by (simp add: dict_get_def)
  moreover have "fst (snd (chat_api env0 db0 (Some (JObj chat_request)))) =
    [\<lparr>url = ''https://openrouter.ai/api/v1/chat/completions'',
      headers = [(''Authorization'', ''Bearer sk-test''),
                 (''Content-Type'', ''application/json'')],
      payload =
        JObj [(''model'', JStr ''openai/gpt-3.5-turbo''),
              (''messages'',
                 JArr (JObj [(''role'', JStr ''system''),
                             (''content'', JStr ''Available phones: Samsung A54'')]
                       # map (\<lambda>i. JObj [(''role'', JStr ''user''), (''content'', JInt i)])
                           [3, 4, 5, 6, 7, 8, 9, 10, 11, 12]
                       @ [JObj [(''role'', JStr ''user''),
                                (''content'', JStr ''Which phone has the best camera?'')]])),
              (''temperature'', JFloat (float_of_fraction 7 10)),
              (''max_tokens'', JInt 500)],
      timeout = 30\<rparr>]"
    using chat_forwards_last_ten_turns [of chat_request history12
        "map (\<lambda>i. [(''role'', JStr ''user''), (''content'', JInt i)])
           [3, 4, 5, 6, 7, 8, 9, 10, 11, 12]"
        env0 db0]
    by (simp add: chat_request_def history12_def dict_get_def turn_message_def env0_def db0_def
        phones_context_def phones_filter_def phone_a_def phone_b_def)
  ultimately show ?thesis by (simp add: history12_def)
qed

end
